theory Spec2Isabelle
  imports Complex_Main
begin

section \<open>Calendar arithmetic of the JavaScript \<^verbatim>\<open>Date\<close> object\<close>

text \<open>
  A \<^verbatim>\<open>Date\<close> holds a time value: the number of milliseconds since 1970-01-01T00:00:00Z, or
  \<^verbatim>\<open>NaN\<close> for the invalid date. The server builds the dates of the recurrence code with
  \<^verbatim>\<open>new Date(year, month - 1, day)\<close>, which is midnight in the time zone of the server
  process, moves them with \<^verbatim>\<open>setDate\<close>, \<^verbatim>\<open>setMonth\<close> and \<^verbatim>\<open>setFullYear\<close>, which work on the
  local date, and prints them with \<^verbatim>\<open>toISOString()\<close>, which is the date in UTC. The model
  therefore keeps the time value and takes the time zone as a parameter of every function that
  reads the local time.

  A time zone is modelled by its offset from UTC in milliseconds (positive east of
  Greenwich), the same at every instant: this covers the zones without daylight-saving
  transitions, such as UTC and Asia/Tokyo. A zone whose offset changes over the year is outside
  the model.

  A JavaScript number is modelled by an integer, or \<open>None\<close> for \<^verbatim>\<open>NaN\<close>. Every number that the
  code computes is an integer; the integers are exact below \<open>2^53\<close>, and a time value beyond
  \<open>8.64 * 10^15\<close> milliseconds is cut off to the invalid date by \<open>TimeClip\<close> as in
  ECMA-262. The functions below are the abstract operations of ECMA-262 (section "Date
  objects"); those that depend on a time value only through its day number \<open>Day(t)\<close> are
  stated on the day number.
\<close>

type_synonym jsnum = "int option"

type_synonym jsdate = "int option"

type_synonym zone = int

fun num_add :: "jsnum \<Rightarrow> jsnum \<Rightarrow> jsnum" where
  "num_add (Some x) (Some y) = Some (x + y)"
| "num_add _ _ = None"

fun num_sub :: "jsnum \<Rightarrow> jsnum \<Rightarrow> jsnum" where
  "num_sub (Some x) (Some y) = Some (x - y)"
| "num_sub _ _ = None"

fun num_mul :: "jsnum \<Rightarrow> jsnum \<Rightarrow> jsnum" where
  "num_mul (Some x) (Some y) = Some (x * y)"
| "num_mul _ _ = None"

text \<open>The comparisons \<^verbatim>\<open><\<close> and \<^verbatim>\<open><=\<close>: false when one side is \<^verbatim>\<open>NaN\<close>.\<close>

fun num_lt :: "jsnum \<Rightarrow> jsnum \<Rightarrow> bool" where
  "num_lt (Some x) (Some y) = (x < y)"
| "num_lt _ _ = False"

fun num_le :: "jsnum \<Rightarrow> jsnum \<Rightarrow> bool" where
  "num_le (Some x) (Some y) = (x \<le> y)"
| "num_le _ _ = False"

text \<open>The \<^verbatim>\<open>%\<close> operator on integers: the remainder takes the sign of the dividend, and a
  zero divisor gives \<^verbatim>\<open>NaN\<close>.\<close>

definition js_rem :: "int \<Rightarrow> int \<Rightarrow> jsnum" where
  "js_rem a b = (if b = 0 then None else Some (sgn a * (\<bar>a\<bar> mod \<bar>b\<bar>)))"

definition msPerDay :: int where
  "msPerDay = 86400000"

text \<open>\<open>Day(t)\<close> and \<open>TimeWithinDay(t)\<close> of ECMA-262.\<close>

definition DayNumber :: "int \<Rightarrow> int" where
  "DayNumber t = t div msPerDay"

definition TimeWithinDay :: "int \<Rightarrow> int" where
  "TimeWithinDay t = t mod msPerDay"

definition DayFromYear :: "int \<Rightarrow> int" where
  "DayFromYear y = 365 * (y - 1970) + (y - 1969) div 4 - (y - 1901) div 100 + (y - 1601) div 400"

definition InLeapYear :: "int \<Rightarrow> bool" where
  "InLeapYear y = (y mod 4 = 0 \<and> (y mod 100 \<noteq> 0 \<or> y mod 400 = 0))"

text \<open>
  The year of the day number \<open>d\<close> is the largest \<open>y\<close> with \<open>DayFromYear y \<le> d\<close>. The
  executable form estimates the year from the mean year length and corrects the estimate by
  at most one; \<open>YearFromTime_bounds\<close> and \<open>YearFromTime_unique\<close> below show that it is
  that largest year.
\<close>

definition YearFromTime :: "int \<Rightarrow> int" where
  "YearFromTime d = (let y = 1970 + (400 * d) div 146097 in
      if d < DayFromYear y then y - 1
      else if DayFromYear (y + 1) \<le> d then y + 1 else y)"

definition month_start :: "bool \<Rightarrow> int \<Rightarrow> int" where
  "month_start leap m = (let l = (if leap then 1 else 0) in
      if m = 0 then 0 else if m = 1 then 31 else if m = 2 then 59 + l
      else if m = 3 then 90 + l else if m = 4 then 120 + l else if m = 5 then 151 + l
      else if m = 6 then 181 + l else if m = 7 then 212 + l else if m = 8 then 243 + l
      else if m = 9 then 273 + l else if m = 10 then 304 + l else 334 + l)"

definition DayWithinYear :: "int \<Rightarrow> int" where
  "DayWithinYear d = d - DayFromYear (YearFromTime d)"

definition MonthFromTime :: "int \<Rightarrow> int" where
  "MonthFromTime d = (let w = DayWithinYear d; l = (if InLeapYear (YearFromTime d) then 1 else 0) in
      if w < 31 then 0 else if w < 59 + l then 1 else if w < 90 + l then 2
      else if w < 120 + l then 3 else if w < 151 + l then 4 else if w < 181 + l then 5
      else if w < 212 + l then 6 else if w < 243 + l then 7 else if w < 273 + l then 8
      else if w < 304 + l then 9 else if w < 334 + l then 10 else 11)"

definition DateFromTime :: "int \<Rightarrow> int" where
  "DateFromTime d =
     DayWithinYear d - month_start (InLeapYear (YearFromTime d)) (MonthFromTime d) + 1"

definition WeekDay :: "int \<Rightarrow> int" where
  "WeekDay d = (d + 4) mod 7"

text \<open>\<open>MakeDay\<close> normalises a month index outside \<open>0..11\<close> into the year and lets the day of
  the month run over into the following months: this is the roll-over of \<^verbatim>\<open>setMonth\<close>. Its
  result is a day number.\<close>

definition MakeDay :: "int \<Rightarrow> int \<Rightarrow> int \<Rightarrow> int" where
  "MakeDay year month dt = (let ym = year + month div 12; mn = month mod 12 in
      DayFromYear ym + month_start (InLeapYear ym) mn + dt - 1)"

definition MakeDate :: "int \<Rightarrow> int \<Rightarrow> int" where
  "MakeDate day time = day * msPerDay + time"

definition TimeClip :: "int \<Rightarrow> jsdate" where
  "TimeClip t = (if \<bar>t\<bar> > 8640000000000000 then None else Some t)"

definition LocalTime :: "zone \<Rightarrow> int \<Rightarrow> int" where
  "LocalTime tz t = t + tz"

definition UTC :: "zone \<Rightarrow> int \<Rightarrow> int" where
  "UTC tz t = t - tz"

text \<open>Two zones: UTC, and Asia/Tokyo, nine hours ahead of UTC all year.\<close>

definition utc :: zone where
  "utc = 0"

definition tokyo :: zone where
  "tokyo = 9 * 3600000"

text \<open>\<^verbatim>\<open>new Date(year, monthIndex, day)\<close> on numbers: midnight local time; a year from 0 to 99
  means 1900 + year; a \<^verbatim>\<open>NaN\<close> argument gives the invalid date.\<close>

definition newDate :: "zone \<Rightarrow> jsnum \<Rightarrow> jsnum \<Rightarrow> jsnum \<Rightarrow> jsdate" where
  "newDate tz year monthIndex day =
     (case year of None \<Rightarrow> None | Some y \<Rightarrow>
     (case monthIndex of None \<Rightarrow> None | Some m \<Rightarrow>
     (case day of None \<Rightarrow> None | Some dt \<Rightarrow>
        TimeClip (UTC tz
          (MakeDate (MakeDay (if 0 \<le> y \<and> y \<le> 99 then 1900 + y else y) m dt) 0)))))"

text \<open>The getters read the local time and give \<^verbatim>\<open>NaN\<close> on the invalid date.\<close>

definition getFullYear :: "zone \<Rightarrow> jsdate \<Rightarrow> jsnum" where
  "getFullYear tz d = map_option (\<lambda>t. YearFromTime (DayNumber (LocalTime tz t))) d"

definition getMonth :: "zone \<Rightarrow> jsdate \<Rightarrow> jsnum" where
  "getMonth tz d = map_option (\<lambda>t. MonthFromTime (DayNumber (LocalTime tz t))) d"

definition getDate :: "zone \<Rightarrow> jsdate \<Rightarrow> jsnum" where
  "getDate tz d = map_option (\<lambda>t. DateFromTime (DayNumber (LocalTime tz t))) d"

definition getDay :: "zone \<Rightarrow> jsdate \<Rightarrow> jsnum" where
  "getDay tz d = map_option (\<lambda>t. WeekDay (DayNumber (LocalTime tz t))) d"

text \<open>The setters mutate the \<^verbatim>\<open>Date\<close>; here they return its new time value. They change one
  field of the local date and keep the local time of day.\<close>

definition setDate :: "zone \<Rightarrow> jsdate \<Rightarrow> jsnum \<Rightarrow> jsdate" where
  "setDate tz d date' =
     (case d of None \<Rightarrow> None | Some t \<Rightarrow>
     (case date' of None \<Rightarrow> None | Some dt \<Rightarrow>
        (let l = LocalTime tz t in
         TimeClip (UTC tz
           (MakeDate (MakeDay (YearFromTime (DayNumber l)) (MonthFromTime (DayNumber l)) dt)
              (TimeWithinDay l))))))"

definition setMonth :: "zone \<Rightarrow> jsdate \<Rightarrow> jsnum \<Rightarrow> jsdate" where
  "setMonth tz d month =
     (case d of None \<Rightarrow> None | Some t \<Rightarrow>
     (case month of None \<Rightarrow> None | Some m \<Rightarrow>
        (let l = LocalTime tz t in
         TimeClip (UTC tz
           (MakeDate (MakeDay (YearFromTime (DayNumber l)) m (DateFromTime (DayNumber l)))
              (TimeWithinDay l))))))"

text \<open>\<^verbatim>\<open>setFullYear\<close> starts from the time value \<open>+0\<close> when the date is invalid.\<close>

definition setFullYear :: "zone \<Rightarrow> jsdate \<Rightarrow> jsnum \<Rightarrow> jsdate" where
  "setFullYear tz d year =
     (case year of None \<Rightarrow> None | Some y \<Rightarrow>
        (let l = (case d of None \<Rightarrow> 0 | Some t \<Rightarrow> LocalTime tz t) in
         TimeClip (UTC tz
           (MakeDate (MakeDay y (MonthFromTime (DayNumber l)) (DateFromTime (DayNumber l)))
              (TimeWithinDay l)))))"

section \<open>The pattern parser\<close>

text \<open>
  \<^verbatim>\<open>parseRecurringPattern\<close> matches two regular expressions, neither of them anchored:
  \<^verbatim>\<open>/every (\d+) (day|week|month|year)s?(?: on (\w+))?/\<close> and
  \<^verbatim>\<open>/every (\d+)(?:st|nd|rd|th) of the month/\<close>.
  \<^verbatim>\<open>String.prototype.match\<close> tries every start position from the left and returns the first
  match. At one start position the backtracking matcher has a single way to succeed: the greedy
  \<^verbatim>\<open>\d+\<close> must take the whole run of digits (the next character must not be a digit), the
  four unit names start with different letters, and the optional tail can always match the
  empty string, so the greedy choices (take the \<^verbatim>\<open>s\<close>, take the weekday clause, take the
  whole \<^verbatim>\<open>\w+\<close> run) are never undone.
\<close>

definition is_digit :: "char \<Rightarrow> bool" where
  "is_digit c = (c \<in> set ''0123456789'')"

definition is_upper :: "char \<Rightarrow> bool" where
  "is_upper c = (c \<in> set ''ABCDEFGHIJKLMNOPQRSTUVWXYZ'')"

definition is_word :: "char \<Rightarrow> bool" where
  "is_word c = (c \<in> set ''abcdefghijklmnopqrstuvwxyz'' \<or> is_upper c \<or> is_digit c \<or> c = CHR ''_'')"

definition digit_val :: "char \<Rightarrow> int" where
  "digit_val c = int (of_char c) - 48"

text \<open>\<^verbatim>\<open>parseInt\<close> on a string of decimal digits.\<close>

definition parseInt :: "string \<Rightarrow> int" where
  "parseInt ds = foldl (\<lambda>n c. 10 * n + digit_val c) 0 ds"

definition lower_char :: "char \<Rightarrow> char" where
  "lower_char c = (if is_upper c then char_of (of_char c + (32::nat)) else c)"

definition toLowerCase :: "string \<Rightarrow> string" where
  "toLowerCase s = map lower_char s"

fun strip_prefix :: "string \<Rightarrow> string \<Rightarrow> string option" where
  "strip_prefix [] s = Some s"
| "strip_prefix (p # ps) [] = None"
| "strip_prefix (p # ps) (c # cs) = (if p = c then strip_prefix ps cs else None)"

datatype recur_unit = Day | Week | Month | Year | MonthDay

text \<open>The alternation \<^verbatim>\<open>(day|week|month|year)\<close>, tried in this order.\<close>

definition match_unit :: "string \<Rightarrow> (recur_unit \<times> string) option" where
  "match_unit s =
     (case strip_prefix ''day'' s of Some r \<Rightarrow> Some (Day, r) | None \<Rightarrow>
     (case strip_prefix ''week'' s of Some r \<Rightarrow> Some (Week, r) | None \<Rightarrow>
     (case strip_prefix ''month'' s of Some r \<Rightarrow> Some (Month, r) | None \<Rightarrow>
     (case strip_prefix ''year'' s of Some r \<Rightarrow> Some (Year, r) | None \<Rightarrow> None))))"

text \<open>The alternation \<^verbatim>\<open>(?:st|nd|rd|th)\<close>.\<close>

definition match_suffix :: "string \<Rightarrow> string option" where
  "match_suffix s =
     (case strip_prefix ''st'' s of Some r \<Rightarrow> Some r | None \<Rightarrow>
     (case strip_prefix ''nd'' s of Some r \<Rightarrow> Some r | None \<Rightarrow>
     (case strip_prefix ''rd'' s of Some r \<Rightarrow> Some r | None \<Rightarrow>
      strip_prefix ''th'' s)))"

text \<open>The optional \<^verbatim>\<open>s\<close> and the optional group \<^verbatim>\<open>(?: on (\w+))\<close> after the unit: the
  captured weekday word, \<open>None\<close> when the group did not take part.\<close>

definition match_tail :: "string \<Rightarrow> string option" where
  "match_tail r4 =
     (let r5 = (case strip_prefix ''s'' r4 of Some r \<Rightarrow> r | None \<Rightarrow> r4) in
      case strip_prefix '' on '' r5 of None \<Rightarrow> None
      | Some r6 \<Rightarrow> (let w = takeWhile is_word r6 in if w = [] then None else Some w))"

text \<open>The first regular expression at one start position: the captures (digits, unit,
  weekday word).\<close>

definition match_regular :: "string \<Rightarrow> (string \<times> recur_unit \<times> string option) option" where
  "match_regular s =
     (case strip_prefix ''every '' s of None \<Rightarrow> None
      | Some r1 \<Rightarrow>
         (let ds = takeWhile is_digit r1; r2 = dropWhile is_digit r1 in
          if ds = [] then None
          else (case strip_prefix '' '' r2 of None \<Rightarrow> None
                | Some r3 \<Rightarrow>
                   (case match_unit r3 of None \<Rightarrow> None
                    | Some (u, r4) \<Rightarrow> Some (ds, u, match_tail r4)))))"

text \<open>The second regular expression at one start position: the captured digits.\<close>

definition match_monthday :: "string \<Rightarrow> string option" where
  "match_monthday s =
     (case strip_prefix ''every '' s of None \<Rightarrow> None
      | Some r1 \<Rightarrow>
         (let ds = takeWhile is_digit r1; r2 = dropWhile is_digit r1 in
          if ds = [] then None
          else (case match_suffix r2 of None \<Rightarrow> None
                | Some r3 \<Rightarrow>
                   (case strip_prefix '' of the month'' r3 of None \<Rightarrow> None
                    | Some r4 \<Rightarrow> Some ds))))"

text \<open>\<^verbatim>\<open>str.match(re)\<close> without the \<^verbatim>\<open>g\<close> flag: the match at the leftmost start position.\<close>

fun regex_search :: "(string \<Rightarrow> 'a option) \<Rightarrow> string \<Rightarrow> 'a option" where
  "regex_search m [] = m []"
| "regex_search m (c # cs) = (case m (c # cs) of Some r \<Rightarrow> Some r | None \<Rightarrow> regex_search m cs)"

record rpattern =
  interval :: int
  unit :: recur_unit
  dayOfWeek :: "string option"
  dayOfMonth :: "int option"

datatype error = InvalidPattern

definition parseRecurringPattern :: "string \<Rightarrow> error + rpattern" where
  "parseRecurringPattern pattern =
     (let weeklyMatches = regex_search match_regular pattern;
          monthlyDayMatches = regex_search match_monthday pattern in
      case weeklyMatches of
        Some (n, u, w) \<Rightarrow>
          Inr \<lparr>interval = parseInt n, unit = u,
               dayOfWeek = map_option toLowerCase w, dayOfMonth = None\<rparr>
      | None \<Rightarrow>
         (case monthlyDayMatches of
            Some n \<Rightarrow>
              Inr \<lparr>interval = 1, unit = MonthDay, dayOfWeek = None,
                   dayOfMonth = Some (parseInt n)\<rparr>
          | None \<Rightarrow> Inl InvalidPattern))"

section \<open>Dates as strings\<close>

text \<open>
  The transactions carry their dates as strings, which the handlers store as they come: no
  handler checks the form of a date. The code reads a date string in three ways: it compares
  two of them with \<^verbatim>\<open><=\<close> and \<^verbatim>\<open>>=\<close>, it splits one at the hyphens and hands the fields to
  \<^verbatim>\<open>new Date(year, month - 1, day)\<close>, and it hands the whole string to \<^verbatim>\<open>new Date(str)\<close>.
  A string is a list of 8-bit characters here; a code unit above 255 has no counterpart in
  the model.
\<close>

text \<open>\<^verbatim>\<open>a <= b\<close> on strings: lexicographic on the code units, a proper prefix first.\<close>

fun str_le :: "string \<Rightarrow> string \<Rightarrow> bool" where
  "str_le [] b = True"
| "str_le (x # xs) [] = False"
| "str_le (x # xs) (y # ys) = ((of_char x :: nat) < of_char y \<or> (x = y \<and> str_le xs ys))"

text \<open>\<^verbatim>\<open>s.split(c)\<close> for a one-character separator: always at least one part.\<close>

fun split_on :: "char \<Rightarrow> string \<Rightarrow> string list" where
  "split_on c [] = [[]]"
| "split_on c (x # xs) =
     (if x = c then [] # split_on c xs
      else (case split_on c xs of [] \<Rightarrow> [[x]] | p # ps \<Rightarrow> (x # p) # ps))"

text \<open>An element of a destructured array: \<open>None\<close> is \<^verbatim>\<open>undefined\<close>.\<close>

definition field :: "string list \<Rightarrow> nat \<Rightarrow> string option" where
  "field parts i = (if i < length parts then Some (parts ! i) else None)"

text \<open>
  The numeric coercion of a field. The empty string is 0 and a string of decimal digits is
  its number; \<^verbatim>\<open>undefined\<close> is \<^verbatim>\<open>NaN\<close>. The other numeric literals of JavaScript (white space
  around the digits, a sign, a fraction, an exponent, a radix prefix, \<^verbatim>\<open>Infinity\<close>) are not
  modelled: the model reads them, like every other string, as \<^verbatim>\<open>NaN\<close>. No result below
  rests on the value of such a field.
\<close>

definition StringToNumber :: "string \<Rightarrow> jsnum" where
  "StringToNumber s = (if list_all is_digit s then Some (parseInt s) else None)"

definition ToNumber :: "string option \<Rightarrow> jsnum" where
  "ToNumber v = (case v of None \<Rightarrow> None | Some s \<Rightarrow> StringToNumber s)"

text \<open>The three lines \<^verbatim>\<open>const [y, m, d] = s.split('-'); new Date(y, m - 1, d)\<close>: local
  midnight of the date that the fields name.\<close>

definition dateOf :: "zone \<Rightarrow> string \<Rightarrow> jsdate" where
  "dateOf tz s = (let parts = split_on (CHR ''-'') s in
     newDate tz (ToNumber (field parts 0)) (num_sub (ToNumber (field parts 1)) (Some 1))
       (ToNumber (field parts 2)))"

text \<open>The date part of \<^verbatim>\<open>toISOString()\<close>: the calendar date of the time value in UTC, with
  four digits for the years 0 to 9999 and a sign and six digits otherwise.\<close>

fun digits_of :: "nat \<Rightarrow> string" where
  "digits_of n = (if n < 10 then [char_of (48 + n)]
                  else digits_of (n div 10) @ [char_of (48 + n mod 10)])"

definition pad :: "nat \<Rightarrow> string \<Rightarrow> string" where
  "pad k s = replicate (k - length s) (CHR ''0'') @ s"

definition year_string :: "int \<Rightarrow> string" where
  "year_string y = (if 0 \<le> y \<and> y \<le> 9999 then pad 4 (digits_of (nat y))
     else (if y < 0 then ''-'' else ''+'') @ pad 6 (digits_of (nat \<bar>y\<bar>)))"

definition isoDateString :: "int \<Rightarrow> string" where
  "isoDateString t = (let d = DayNumber t in
     year_string (YearFromTime d) @ ''-'' @ pad 2 (digits_of (nat (MonthFromTime d + 1))) @
     ''-'' @ pad 2 (digits_of (nat (DateFromTime d))))"

text \<open>\<^verbatim>\<open>d.toISOString().split('T')[0]\<close>; \<open>None\<close> stands for the \<^verbatim>\<open>RangeError\<close> that
  \<^verbatim>\<open>toISOString\<close> throws on the invalid date.\<close>

definition toISODate :: "jsdate \<Rightarrow> string option" where
  "toISODate d = map_option isoDateString d"

text \<open>
  \<^verbatim>\<open>new Date(str)\<close>. ECMA-262 fixes the result for the ISO formats only: the date-only form
  \<^verbatim>\<open>YYYY-MM-DD\<close> is midnight UTC of that date. V8 accepts the months 1 to 12 and the days 1 to
  31 in it and lets a day beyond the end of the month run over. What an engine makes of any
  other string is left to it; the model reads every other string as the invalid date, and
  the statements that depend on a parsed date are about strings of the date-only form.
\<close>

definition parseDate :: "string \<Rightarrow> jsdate" where
  "parseDate s =
     (if length s = 10 \<and> s ! 4 = CHR ''-'' \<and> s ! 7 = CHR ''-'' \<and> list_all is_digit (take 4 s)
         \<and> list_all is_digit (take 2 (drop 5 s)) \<and> list_all is_digit (drop 8 s)
      then (let y = parseInt (take 4 s); m = parseInt (take 2 (drop 5 s));
                d = parseInt (drop 8 s) in
            if 1 \<le> m \<and> m \<le> 12 \<and> 1 \<le> d \<and> d \<le> 31
            then Some (MakeDate (MakeDay y (m - 1) d) 0) else None)
      else None)"

text \<open>The month key \<^verbatim>\<open>`${year}-${month}`\<close> of the create handler, from
  \<^verbatim>\<open>const [year, month] = adjustedDate.split('-')\<close>.\<close>

definition template_string :: "string option \<Rightarrow> string" where
  "template_string v = (case v of None \<Rightarrow> ''undefined'' | Some s \<Rightarrow> s)"

definition month_key_of :: "string \<Rightarrow> string" where
  "month_key_of d = (let parts = split_on (CHR ''-'') d in
     template_string (field parts 0) @ ''-'' @ template_string (field parts 1))"

section \<open>Transactions and the expansion of a recurring transaction\<close>

text \<open>The \<^verbatim>\<open>recurring\<close> object of a transaction. An absent or \<^verbatim>\<open>null\<close> end date is
  \<open>None\<close>.\<close>

record recurrence =
  pattern :: string
  until :: "string option"

text \<open>A stored transaction. Its id is the string from \<^verbatim>\<open>crypto.randomUUID()\<close>; \<open>category\<close>
  and \<open>recurring\<close> are \<open>None\<close> when the property is absent or \<^verbatim>\<open>null\<close>.\<close>

record tx =
  tid :: string
  amount :: real
  description :: string
  date :: string
  category :: "string option"
  recurring :: "recurrence option"

datatype tx_type = Income | Expense

text \<open>What a range query returns: the copy \<^verbatim>\<open>{ ...t, type }\<close> of a stored transaction, and for a
  generated instance also \<^verbatim>\<open>isRecurringInstance\<close> and \<^verbatim>\<open>recurringParentId\<close>.\<close>

record txo = tx +
  ttype :: tx_type
  isRecurringInstance :: bool
  recurringParentId :: "string option"

definition with_type :: "tx_type \<Rightarrow> tx \<Rightarrow> txo" where
  "with_type ty t = tx.extend t
     \<lparr>ttype = ty, isRecurringInstance = False, recurringParentId = None\<rparr>"

definition weekdays :: "string list" where
  "weekdays = [''sunday'', ''monday'', ''tuesday'', ''wednesday'', ''thursday'', ''friday'',
     ''saturday'']"

text \<open>\<^verbatim>\<open>Array.prototype.indexOf\<close>: \<open>-1\<close> when the element is absent.\<close>

fun indexOf :: "'a list \<Rightarrow> 'a \<Rightarrow> int" where
  "indexOf [] x = - 1"
| "indexOf (y # ys) x =
     (if y = x then 0 else (let i = indexOf ys x in if i < 0 then - 1 else i + 1))"

text \<open>The number of days that moves a date with weekday \<open>currentDay\<close> to the weekday named by
  \<open>dayName\<close> (the same lines in the create handler and in the expansion).\<close>

definition daysToAdd :: "string \<Rightarrow> jsnum \<Rightarrow> jsnum" where
  "daysToAdd dayName currentDay =
     (let targetDay = indexOf weekdays dayName; d = num_sub (Some targetDay) currentDay in
      if num_lt d (Some 0) then num_add d (Some 7) else d)"

text \<open>\<^verbatim>\<open>pattern.dayOfWeek\<close> as a condition: present and not the empty string.\<close>

definition has_dayOfWeek :: "rpattern \<Rightarrow> bool" where
  "has_dayOfWeek pat = (case dayOfWeek pat of None \<Rightarrow> False | Some w \<Rightarrow> w \<noteq> [])"

text \<open>The start of the stepping (lines 534 to 567 of \<^verbatim>\<open>generateRecurringInstances\<close>), from
  \<open>tDate\<close>, the \<^verbatim>\<open>Date\<close> of the transaction's own date. \<^verbatim>\<open>Math.floor\<close> of the quotient of two
  integers is \<open>div\<close> (the floating-point quotient is exact enough for that as long as the two
  dates are less than 160,000 years apart). A month-day pattern carries its day of the month;
  a pattern without one would hand \<^verbatim>\<open>undefined\<close>, that is \<^verbatim>\<open>NaN\<close>, to the constructor.\<close>

definition first_occurrence :: "zone \<Rightarrow> rpattern \<Rightarrow> jsdate \<Rightarrow> jsdate \<Rightarrow> jsdate" where
  "first_occurrence tz pat tDate rangeStart =
     (if unit pat = MonthDay then
        (let c = newDate tz (getFullYear tz tDate) (getMonth tz tDate) (dayOfMonth pat) in
         if num_lt c tDate then setMonth tz c (num_add (getMonth tz c) (Some 1)) else c)
      else if unit pat = Week \<and> has_dayOfWeek pat then
        (let c1 = setDate tz tDate
                    (num_add (getDate tz tDate)
                       (daysToAdd (the (dayOfWeek pat)) (getDay tz tDate))) in
         if interval pat > 1 then
           (let weeksSinceStart =
                  map_option (\<lambda>x. x div (7 * 24 * 60 * 60 * 1000)) (num_sub c1 rangeStart);
                remainingWeeks =
                  (case weeksSinceStart of None \<Rightarrow> None | Some w \<Rightarrow> js_rem w (interval pat)) in
            if remainingWeeks \<noteq> Some 0
            then setDate tz c1
                   (num_add (getDate tz c1)
                      (num_mul (num_sub (Some (interval pat)) remainingWeeks) (Some 7)))
            else c1)
         else c1)
      else tDate)"

text \<open>The \<^verbatim>\<open>switch\<close> at the end of the loop body.\<close>

definition advance :: "zone \<Rightarrow> rpattern \<Rightarrow> jsdate \<Rightarrow> jsdate" where
  "advance tz pat currentDate =
     (case unit pat of
        Day \<Rightarrow> setDate tz currentDate (num_add (getDate tz currentDate) (Some (interval pat)))
      | Week \<Rightarrow>
          setDate tz currentDate (num_add (getDate tz currentDate) (Some (interval pat * 7)))
      | Month \<Rightarrow>
          setMonth tz currentDate (num_add (getMonth tz currentDate) (Some (interval pat)))
      | Year \<Rightarrow>
          setFullYear tz currentDate
            (num_add (getFullYear tz currentDate) (Some (interval pat)))
      | MonthDay \<Rightarrow> setMonth tz currentDate (num_add (getMonth tz currentDate) (Some 1)))"

definition make_instance :: "txo \<Rightarrow> string \<Rightarrow> txo" where
  "make_instance transaction dateStr =
     transaction\<lparr>tid := tid transaction @ ''-'' @ dateStr, date := dateStr,
       isRecurringInstance := True, recurringParentId := Some (tid transaction)\<rparr>"

text \<open>
  The \<^verbatim>\<open>while (currentDate <= until)\<close> loop. The comparison is false when \<open>currentDate\<close> is
  the invalid date, so the body only runs on a time value \<open>t\<close>, whose date in UTC is the
  \<open>dateStr\<close> of the instance. The loop need not end (an interval of 0 never advances), so the
  result is an option: \<open>None\<close> means that the loop runs forever.
\<close>

partial_function (option) gen_loop ::
  "zone \<Rightarrow> txo \<Rightarrow> rpattern \<Rightarrow> jsdate \<Rightarrow> jsdate \<Rightarrow> jsdate \<Rightarrow> jsdate \<Rightarrow> string set \<Rightarrow> txo list
     \<Rightarrow> txo list option" where
  [code]: "gen_loop tz transaction pat untilDate rangeStart rangeEnd currentDate addedDates instances =
     (case currentDate of
        None \<Rightarrow> Some instances
      | Some t \<Rightarrow>
         (if num_le (Some t) untilDate then
            (if num_le rangeStart (Some t) \<and> num_le (Some t) rangeEnd
                \<and> isoDateString t \<notin> addedDates
             then gen_loop tz transaction pat untilDate rangeStart rangeEnd
                    (advance tz pat (Some t)) (insert (isoDateString t) addedDates)
                    (instances @ [make_instance transaction (isoDateString t)])
             else gen_loop tz transaction pat untilDate rangeStart rangeEnd
                    (advance tz pat (Some t)) addedDates instances)
          else Some instances))"

text \<open>The result is \<open>None\<close> when the loop does not end, \<open>Some (Inl e)\<close> when the parser
  throws, and \<open>Some (Inr instances)\<close> when the function returns. The end bound is the
  transaction's \<^verbatim>\<open>until\<close> when that is a non-empty string, and the end of the window
  otherwise.\<close>

definition generateRecurringInstances ::
  "zone \<Rightarrow> txo \<Rightarrow> string \<Rightarrow> string \<Rightarrow> (error + txo list) option" where
  "generateRecurringInstances tz transaction startDate endDate =
     (case recurring transaction of
        None \<Rightarrow> Some (Inr [])
      | Some rc \<Rightarrow>
         (if pattern rc = [] then Some (Inr [])
          else (case parseRecurringPattern (pattern rc) of
                  Inl e \<Rightarrow> Some (Inl e)
                | Inr pat \<Rightarrow>
                   (let tDate = dateOf tz (date transaction);
                        rangeStart = dateOf tz startDate;
                        rangeEnd = dateOf tz endDate;
                        untilDate = (case until rc of
                                       None \<Rightarrow> rangeEnd
                                     | Some u \<Rightarrow> if u = [] then rangeEnd else dateOf tz u)
                    in map_option Inr
                         (gen_loop tz transaction pat untilDate rangeStart rangeEnd
                            (first_occurrence tz pat tDate rangeStart) {} [])))))"

section \<open>The transaction store and the range query\<close>

text \<open>The store is the object read from \<^verbatim>\<open>transactions.json\<close>: month keys in insertion order
  (a key \<^verbatim>\<open>`${year}-${month}`\<close> contains a hyphen, so it is never an array index, which would be
  enumerated first), each with an income and an expenses array.\<close>

record month_data =
  income :: "tx list"
  expenses :: "tx list"

type_synonym month_key = string

type_synonym store = "(month_key \<times> month_data) list"











section \<open>The write handlers\<close>

text \<open>The body of a create or update request after JSON parsing. A missing or empty string
  field is the empty string, a missing amount is 0 (all of them falsy in the handler's first
  check).\<close>

record request =
  r_type :: string
  r_amount :: real
  r_description :: string
  r_category :: string
  r_date :: string
  r_recurring :: "recurrence option"

text \<open>\<^verbatim>\<open>recurring?.pattern\<close> of the request as a condition.\<close>

definition req_pattern :: "request \<Rightarrow> string option" where
  "req_pattern req = (case r_recurring req of None \<Rightarrow> None
     | Some rc \<Rightarrow> (if pattern rc = [] then None else Some (pattern rc)))"

text \<open>The two \<^verbatim>\<open>RegExp.prototype.test\<close> calls of the create handler.\<close>

definition isValidRegular :: "string \<Rightarrow> bool" where
  "isValidRegular p = (regex_search match_regular p \<noteq> None)"

definition isValidMonthDay :: "string \<Rightarrow> bool" where
  "isValidMonthDay p = (regex_search match_monthday p \<noteq> None)"

text \<open>The first checks, shared word for word by the create and the update handler: the
  error status, if any.\<close>

definition basic_validation :: "request \<Rightarrow> nat option" where
  "basic_validation req =
     (if r_type req = [] \<or> r_amount req = 0 \<or> r_description req = [] \<or> r_date req = []
      then Some 400
      else if r_type req \<noteq> ''income'' \<and> r_type req \<noteq> ''expense'' then Some 400
      else if r_type req = ''expense'' \<and> r_category req = [] then Some 400
      else None)"

text \<open>\<^verbatim>\<open>recurring.until && isNaN(new Date(recurring.until).getTime())\<close>.\<close>

definition invalid_until :: "recurrence \<Rightarrow> bool" where
  "invalid_until rc = (case until rc of None \<Rightarrow> False | Some u \<Rightarrow> u \<noteq> [] \<and> parseDate u = None)"

text \<open>\<^verbatim>\<open>recurring.until || null\<close>.\<close>

definition until_or_null :: "recurrence \<Rightarrow> string option" where
  "until_or_null rc = (case until rc of None \<Rightarrow> None | Some u \<Rightarrow> if u = [] then None else Some u)"

text \<open>Lines 354 to 386: the stored date of a new recurring transaction. The result is
  \<open>None\<close> when \<^verbatim>\<open>toISOString\<close> throws.\<close>

definition adjustedDate :: "zone \<Rightarrow> string \<Rightarrow> rpattern \<Rightarrow> string option" where
  "adjustedDate tz date' pat =
     (if unit pat = Week \<and> has_dayOfWeek pat then
        (let selectedDate = dateOf tz date' in
         toISODate (setDate tz selectedDate
           (num_add (getDate tz selectedDate)
              (daysToAdd (the (dayOfWeek pat)) (getDay tz selectedDate)))))
      else if unit pat = MonthDay then
        (let parts = split_on (CHR ''-'') date';
             selectedDate = newDate tz (ToNumber (field parts 0))
                              (num_sub (ToNumber (field parts 1)) (Some 1)) (dayOfMonth pat) in
         toISODate
           (if num_lt selectedDate (parseDate date')
            then setMonth tz selectedDate (num_add (getMonth tz selectedDate) (Some 1))
            else selectedDate))
      else Some date')"

text \<open>\<^verbatim>\<open>transactions[key]\<close> with the month created at the end when it is missing, and the
  \<^verbatim>\<open>push\<close> onto one of its arrays.\<close>

fun push_tx :: "month_key \<Rightarrow> tx_type \<Rightarrow> tx \<Rightarrow> store \<Rightarrow> store" where
  "push_tx key ty t [] =
     [(key, (case ty of Income \<Rightarrow> \<lparr>income = [t], expenses = []\<rparr>
                      | Expense \<Rightarrow> \<lparr>income = [], expenses = [t]\<rparr>))]"
| "push_tx key ty t ((k, month) # rest) =
     (if k = key
      then (k, (case ty of Income \<Rightarrow> month\<lparr>income := income month @ [t]\<rparr>
                         | Expense \<Rightarrow> month\<lparr>expenses := expenses month @ [t]\<rparr>)) # rest
      else (k, month) # push_tx key ty t rest)"

text \<open>The object that the create handler stores under the new id.\<close>

definition newTransaction :: "string \<Rightarrow> request \<Rightarrow> string \<Rightarrow> recurrence option \<Rightarrow> tx" where
  "newTransaction newId req d rc =
     \<lparr>tid = newId, amount = r_amount req, description = r_description req, date = d,
      category = (if r_type req = ''expense'' then Some (r_category req) else None),
      recurring = rc\<rparr>"

text \<open>\<^verbatim>\<open>POST /api/transactions\<close>. \<open>newId\<close> is the value of \<^verbatim>\<open>crypto.randomUUID()\<close>. The
  result is the HTTP status and the store afterwards (written by \<^verbatim>\<open>saveTransactions\<close> only on
  the path that answers 201). An exception inside the handler is caught and answered with
  500.\<close>

definition post_transaction :: "zone \<Rightarrow> string \<Rightarrow> request \<Rightarrow> store \<Rightarrow> nat \<times> store" where
  "post_transaction tz newId req transactions =
     (case basic_validation req of
        Some status \<Rightarrow> (status, transactions)
      | None \<Rightarrow>
         (case req_pattern req of
            None \<Rightarrow>
              (201, push_tx (month_key_of (r_date req))
                      (if r_type req = ''expense'' then Expense else Income)
                      (newTransaction newId req (r_date req) None) transactions)
          | Some p \<Rightarrow>
              (if \<not> isValidRegular p \<and> \<not> isValidMonthDay p then (400, transactions)
               else if invalid_until (the (r_recurring req)) then (400, transactions)
               else (case parseRecurringPattern p of
                       Inl e \<Rightarrow> (500, transactions)
                     | Inr pat \<Rightarrow>
                        (case adjustedDate tz (r_date req) pat of
                           None \<Rightarrow> (500, transactions)
                         | Some d \<Rightarrow>
                            (201, push_tx (month_key_of d)
                                    (if r_type req = ''expense'' then Expense else Income)
                                    (newTransaction newId req d
                                       (Some \<lparr>pattern = p,
                                              until = until_or_null (the (r_recurring req))\<rparr>))
                                    transactions))))))"

text \<open>\<^verbatim>\<open>Array.prototype.findIndex\<close>, \<open>None\<close> for \<open>-1\<close>.\<close>

fun findIndex :: "('a \<Rightarrow> bool) \<Rightarrow> 'a list \<Rightarrow> nat option" where
  "findIndex P [] = None"
| "findIndex P (x # xs) =
     (if P x then Some 0 else (case findIndex P xs of None \<Rightarrow> None | Some i \<Rightarrow> Some (Suc i)))"

text \<open>\<^verbatim>\<open>xs.splice(i, 1)\<close>: the array without its element at index \<open>i\<close>.\<close>

definition splice1 :: "nat \<Rightarrow> 'a list \<Rightarrow> 'a list" where
  "splice1 i xs = take i xs @ drop (Suc i) xs"

text \<open>The object that the update handler writes: the old transaction with amount,
  description, date and \<^verbatim>\<open>recurring: recurring || null\<close> replaced. The recurring pattern of
  the request is stored as it came.\<close>

definition updated :: "request \<Rightarrow> tx \<Rightarrow> tx" where
  "updated req t = t\<lparr>amount := r_amount req, description := r_description req,
     date := r_date req, recurring := r_recurring req\<rparr>"

text \<open>The loop over the months of the update handler; \<open>None\<close> when no transaction has the
  id.\<close>

fun put_months :: "string \<Rightarrow> request \<Rightarrow> store \<Rightarrow> store option" where
  "put_months i req [] = None"
| "put_months i req ((k, monthData) # rest) =
     (case findIndex (\<lambda>t. tid t = i) (income monthData) of
        Some incomeIndex \<Rightarrow>
          Some ((k,
            (if r_type req = ''expense''
             then monthData\<lparr>income := splice1 incomeIndex (income monthData),
                    expenses := expenses monthData @
                      [updated req ((income monthData ! incomeIndex)
                                      \<lparr>category := Some (r_category req)\<rparr>)]\<rparr>
             else monthData\<lparr>income := (income monthData)
                    [incomeIndex := updated req (income monthData ! incomeIndex)]\<rparr>)) # rest)
      | None \<Rightarrow>
         (case findIndex (\<lambda>t. tid t = i) (expenses monthData) of
            Some expenseIndex \<Rightarrow>
              Some ((k,
                (if r_type req = ''income''
                 then monthData\<lparr>expenses := splice1 expenseIndex (expenses monthData),
                        income := income monthData @
                          [updated req ((expenses monthData ! expenseIndex)
                                          \<lparr>category := None\<rparr>)]\<rparr>
                 else monthData\<lparr>expenses := (expenses monthData)
                        [expenseIndex := (updated req (expenses monthData ! expenseIndex))
                                           \<lparr>category := Some (r_category req)\<rparr>]\<rparr>)) # rest)
          | None \<Rightarrow> map_option (\<lambda>r. (k, monthData) # r) (put_months i req rest)))"

text \<open>\<^verbatim>\<open>PUT /api/transactions/:id\<close>.\<close>

definition put_transaction :: "string \<Rightarrow> request \<Rightarrow> store \<Rightarrow> nat \<times> store" where
  "put_transaction i req transactions =
     (case basic_validation req of
        Some status \<Rightarrow> (status, transactions)
      | None \<Rightarrow>
         (case put_months i req transactions of
            None \<Rightarrow> (404, transactions)
          | Some transactions' \<Rightarrow> (200, transactions')))"

text \<open>The loop over the months of the delete handler.\<close>

fun delete_months :: "string \<Rightarrow> string \<Rightarrow> store \<Rightarrow> store option" where
  "delete_months parentId i [] = None"
| "delete_months parentId i ((k, monthData) # rest) =
     (case findIndex (\<lambda>t. tid t = parentId \<or> tid t = i) (income monthData) of
        Some incomeIndex \<Rightarrow>
          Some ((k, monthData\<lparr>income := splice1 incomeIndex (income monthData)\<rparr>) # rest)
      | None \<Rightarrow>
         (case findIndex (\<lambda>t. tid t = parentId \<or> tid t = i) (expenses monthData) of
            Some expenseIndex \<Rightarrow>
              Some ((k, monthData\<lparr>expenses := splice1 expenseIndex (expenses monthData)\<rparr>) # rest)
          | None \<Rightarrow> map_option (\<lambda>r. (k, monthData) # r) (delete_months parentId i rest)))"

text \<open>\<^verbatim>\<open>id.split('-')[0]\<close>: the text before the first hyphen.\<close>

definition parentId_of :: "string \<Rightarrow> string" where
  "parentId_of i = (if CHR ''-'' \<in> set i then takeWhile (\<lambda>c. c \<noteq> CHR ''-'') i else i)"

text \<open>\<^verbatim>\<open>DELETE /api/transactions/:id\<close>.\<close>

definition delete_transaction :: "string \<Rightarrow> store \<Rightarrow> nat \<times> store" where
  "delete_transaction i transactions =
     (case delete_months (parentId_of i) i transactions of
        None \<Rightarrow> (404, transactions)
      | Some transactions' \<Rightarrow> (200, transactions'))"

section \<open>The vocabulary of the specification\<close>

text \<open>The two grammars in the words of the specification, for a whole string:
  \<^verbatim>\<open>every {N} {unit}[s] [on {weekday}]\<close> with the weekday clause only after \<^verbatim>\<open>week\<close>, and
  \<^verbatim>\<open>every {N}{st|nd|rd|th} of the month\<close>; \<open>N\<close> is a positive decimal number and the weekday
  a lower-case full weekday name.\<close>

definition spec_tails_A :: "string list" where
  "spec_tails_A =
     [''day'', ''days'', ''week'', ''weeks'', ''month'', ''months'', ''year'', ''years''] @
     map (\<lambda>w. ''week on '' @ w) weekdays @ map (\<lambda>w. ''weeks on '' @ w) weekdays"

definition spec_tails_B :: "string list" where
  "spec_tails_B = [''st of the month'', ''nd of the month'', ''rd of the month'',
     ''th of the month'']"

definition spec_grammar_A :: "string \<Rightarrow> bool" where
  "spec_grammar_A s =
     (case strip_prefix ''every '' s of None \<Rightarrow> False
      | Some r \<Rightarrow>
         (let ds = takeWhile is_digit r in
          ds \<noteq> [] \<and> 0 < parseInt ds \<and>
          (case strip_prefix '' '' (dropWhile is_digit r) of None \<Rightarrow> False
           | Some tail' \<Rightarrow> tail' \<in> set spec_tails_A)))"

definition spec_grammar_B :: "string \<Rightarrow> bool" where
  "spec_grammar_B s =
     (case strip_prefix ''every '' s of None \<Rightarrow> False
      | Some r \<Rightarrow>
         (let ds = takeWhile is_digit r in
          ds \<noteq> [] \<and> 0 < parseInt ds \<and> dropWhile is_digit r \<in> set spec_tails_B))"

definition spec_grammar :: "string \<Rightarrow> bool" where
  "spec_grammar s = (spec_grammar_A s \<or> spec_grammar_B s)"

text \<open>What the two regular expressions look for: the text \<^verbatim>\<open>every {ds} {unit}\<close>, or the text
  \<^verbatim>\<open>every {ds}{st|nd|rd|th} of the month\<close>, with a non-empty string of digits \<open>ds\<close>, at any
  place of the string.\<close>

definition regular_occurrence :: "string \<Rightarrow> string \<Rightarrow> bool" where
  "regular_occurrence ds s =
     (ds \<noteq> [] \<and> list_all is_digit ds \<and>
      (\<exists>pre u rest. u \<in> {''day'', ''week'', ''month'', ''year''} \<and>
         s = pre @ ''every '' @ ds @ '' '' @ u @ rest))"

definition monthday_occurrence :: "string \<Rightarrow> string \<Rightarrow> bool" where
  "monthday_occurrence ds s =
     (ds \<noteq> [] \<and> list_all is_digit ds \<and>
      (\<exists>pre suf rest. suf \<in> {''st'', ''nd'', ''rd'', ''th''} \<and>
         s = pre @ ''every '' @ ds @ suf @ '' of the month'' @ rest))"

definition no_occurrence :: "string \<Rightarrow> bool" where
  "no_occurrence s = (\<forall>ds. \<not> regular_occurrence ds s \<and> \<not> monthday_occurrence ds s)"

text \<open>The shape of the ids that \<^verbatim>\<open>crypto.randomUUID()\<close> makes: 36 characters, hyphens at the
  positions 8, 13, 18 and 23, hexadecimal digits elsewhere.\<close>

definition is_hex :: "char \<Rightarrow> bool" where
  "is_hex c = (c \<in> set ''0123456789abcdef'')"

definition is_uuid :: "string \<Rightarrow> bool" where
  "is_uuid s = (length s = 36 \<and>
     list_all (\<lambda>i. if i \<in> {8, 13, 18, 23} then s ! i = CHR ''-'' else is_hex (s ! i)) [0..<36])"

text \<open>All stored transactions, and the property that every id in the store is one that the
  server generated.\<close>

definition stored :: "store \<Rightarrow> tx list" where
  "stored transactions = concat (map (\<lambda>(k, month). income month @ expenses month) transactions)"

definition server_ids :: "store \<Rightarrow> bool" where
  "server_ids transactions = (\<forall>t \<in> set (stored transactions). is_uuid (tid t))"





section \<open>Properties of the calendar arithmetic\<close>

lemma div_lower: "0 < n \<Longrightarrow> n * (a div n) \<le> a" for a n :: int
  using mult_div_mod_eq[of n a] pos_mod_sign[of n a] by linarith

lemma div_upper: "0 < n \<Longrightarrow> a < n * (a div n) + n" for a n :: int
  using mult_div_mod_eq[of n a] pos_mod_bound[of n a] by linarith

lemma div_succ: "0 < n \<Longrightarrow> (a + 1) div n = a div n + (if n dvd (a + 1) then 1 else 0)" for a n :: int
proof (cases "n dvd (a + 1)")
  case True
  assume n: "0 < n"
  from True obtain k where k: "a + 1 = n * k" by (auto simp: dvd_def)
  have l: "n * (a div n) \<le> a" and u: "a < n * (a div n) + n" using n div_lower div_upper by auto
  have "n * (a div n) < n * k" using l k by linarith
  hence 1: "a div n < k" using n by (simp add: mult_less_cancel_left_pos)
  have "n * k < n * (a div n + 2)" using u k n by (simp add: distrib_left)
  hence 2: "k < a div n + 2" using n by (simp add: mult_less_cancel_left_pos)
  have "(a + 1) div n = k" using k n by simp
  thus ?thesis using True 1 2 by simp
next
  case False
  assume n: "0 < n"
  let ?q = "(a + 1) div n" and ?r = "(a + 1) mod n"
  have r0: "?r \<noteq> 0" using False by (simp add: dvd_eq_mod_eq_0)
  have r: "1 \<le> ?r" "?r < n" using r0 n pos_mod_sign[of n "a + 1"] pos_mod_bound[of n "a + 1"] by linarith+
  have "a = ?q * n + (?r - 1)" using div_mult_mod_eq[of "a + 1" n] by linarith
  hence "a div n = (?q * n + (?r - 1)) div n" by simp
  also have "\<dots> = ?q + (?r - 1) div n" using n by (simp add: add.commute del: minus_mod_self2)
  also have "(?r - 1) div n = 0" using r by simp
  finally show ?thesis using False by simp
qed

lemma DayFromYear_linear_core:
  fixes Y a b c :: int
  assumes "4 * a \<le> Y + 1" "Y + 1 < 4 * a + 4" "100 * b \<le> Y + 69" "Y + 69 < 100 * b + 100"
    "400 * c \<le> Y + 369" "Y + 369 < 400 * c + 400"
  shows "146097 * Y - 700 \<le> 400 * (365 * Y + a - b + c)"
    and "400 * (365 * Y + a - b + c) \<le> 146097 * Y + 700"
proof -
  show "146097 * Y - 700 \<le> 400 * (365 * Y + a - b + c)" using assms by simp
  show "400 * (365 * Y + a - b + c) \<le> 146097 * Y + 700" using assms by simp
qed

lemma DayFromYear_linear:
  "146097 * (y - 1970) - 700 \<le> 400 * DayFromYear y"
  "400 * DayFromYear y \<le> 146097 * (y - 1970) + 700"
proof -
  have "4 * ((y - 1969) div 4) \<le> y - 1969" "y - 1969 < 4 * ((y - 1969) div 4) + 4"
    "100 * ((y - 1901) div 100) \<le> y - 1901" "y - 1901 < 100 * ((y - 1901) div 100) + 100"
    "400 * ((y - 1601) div 400) \<le> y - 1601" "y - 1601 < 400 * ((y - 1601) div 400) + 400"
    by (rule div_lower div_upper, simp)+
  hence *: "4 * ((y - 1969) div 4) \<le> (y - 1970) + 1" "(y - 1970) + 1 < 4 * ((y - 1969) div 4) + 4"
    "100 * ((y - 1901) div 100) \<le> (y - 1970) + 69" "(y - 1970) + 69 < 100 * ((y - 1901) div 100) + 100"
    "400 * ((y - 1601) div 400) \<le> (y - 1970) + 369" "(y - 1970) + 369 < 400 * ((y - 1601) div 400) + 400"
    by simp_all
  show "146097 * (y - 1970) - 700 \<le> 400 * DayFromYear y"
    unfolding DayFromYear_def by (rule DayFromYear_linear_core(1)[OF *])
  show "400 * DayFromYear y \<le> 146097 * (y - 1970) + 700"
    unfolding DayFromYear_def by (rule DayFromYear_linear_core(2)[OF *])
qed

lemma YearFromTime_bounds:
  "DayFromYear (YearFromTime t) \<le> t" "t < DayFromYear (YearFromTime t + 1)"
proof -
  define q where "q = (400 * t) div 146097"
  have q: "146097 * q \<le> 400 * t" "400 * t < 146097 * q + 146097"
    unfolding q_def by (rule div_lower div_upper, simp)+
  have lo: "400 * DayFromYear (1970 + q - 1) \<le> 400 * t"
    using DayFromYear_linear(2)[of "1970 + q - 1"] q by simp
  have hi: "400 * t < 400 * DayFromYear (1970 + q + 2)"
    using DayFromYear_linear(1)[of "1970 + q + 2"] q by simp
  have lo': "DayFromYear (1970 + q - 1) \<le> t" using lo by simp
  have hi': "t < DayFromYear (1970 + q + 1 + 1)" using hi by simp
  show "DayFromYear (YearFromTime t) \<le> t"
    unfolding YearFromTime_def Let_def q_def[symmetric] using lo' by simp
  show "t < DayFromYear (YearFromTime t + 1)"
    unfolding YearFromTime_def Let_def q_def[symmetric] using hi' by (simp add: add.assoc)
qed

lemma dvd_shift: "n dvd c \<Longrightarrow> n dvd (y - c) \<longleftrightarrow> n dvd y" for n y c :: int
  by (simp add: dvd_diff_left_iff)

lemma div_succ_shift:
  fixes y :: int
  assumes "0 < n" "n dvd c"
  shows "(y - c) div n = (y - (c + 1)) div n + (if n dvd y then 1 else 0)"
proof -
  have 1: "(y - (c + 1) + 1) div n = (y - (c + 1)) div n + (if n dvd (y - (c + 1) + 1) then 1 else 0)"
    by (rule div_succ) (rule assms)
  have 2: "y - (c + 1) + 1 = y - c" by simp
  have 3: "n dvd (y - c) \<longleftrightarrow> n dvd y" by (rule dvd_shift) (rule assms)
  show ?thesis using 1 unfolding 2 3 .
qed

lemma DayFromYear_step_dvd:
  "DayFromYear (y + 1) = DayFromYear y + 365 + (if 4 dvd y then 1 else 0)
     - (if 100 dvd y then 1 else 0) + (if 400 dvd y then 1 else 0)"
proof -
  have a: "(y - 1968) div 4 = (y - (1968 + 1)) div 4 + (if 4 dvd y then 1 else 0)"
    by (rule div_succ_shift) simp_all
  have b: "(y - 1900) div 100 = (y - (1900 + 1)) div 100 + (if 100 dvd y then 1 else 0)"
    by (rule div_succ_shift) simp_all
  have c: "(y - 1600) div 400 = (y - (1600 + 1)) div 400 + (if 400 dvd y then 1 else 0)"
    by (rule div_succ_shift) simp_all
  have e: "DayFromYear (y + 1) =
      365 * (y - 1969) + (y - 1968) div 4 - (y - 1900) div 100 + (y - 1600) div 400"
    by (simp add: DayFromYear_def)
  show ?thesis unfolding e a b c DayFromYear_def[of y] by simp
qed

lemma DayFromYear_step:
  "DayFromYear (y + 1) = DayFromYear y + (if InLeapYear y then 366 else 365)"
proof -
  have d1: "400 dvd y \<Longrightarrow> 100 dvd y" using dvd_trans[of 100 400 y] by simp
  have d2: "100 dvd y \<Longrightarrow> 4 dvd y" using dvd_trans[of 4 100 y] by simp
  have leap: "InLeapYear y \<longleftrightarrow> (4 dvd y \<and> (\<not> 100 dvd y \<or> 400 dvd y))"
    by (simp add: InLeapYear_def dvd_eq_mod_eq_0)
  show ?thesis
  proof (cases "4 dvd y")
    case False
    hence "\<not> 100 dvd y" "\<not> 400 dvd y" using d1 d2 by blast+
    with False show ?thesis unfolding DayFromYear_step_dvd leap by simp
  next
    case 4: True
    show ?thesis
    proof (cases "100 dvd y")
      case False
      hence "\<not> 400 dvd y" using d1 by blast
      with 4 False show ?thesis unfolding DayFromYear_step_dvd leap by simp
    next
      case True
      with 4 show ?thesis unfolding DayFromYear_step_dvd leap by simp
    qed
  qed
qed

lemma DayFromYear_mono: "y \<le> y' \<Longrightarrow> DayFromYear y \<le> DayFromYear y'"
proof (induction y' rule: int_ge_induct)
  case base
  show ?case by simp
next
  case (step i)
  thus ?case using DayFromYear_step[of i] by (simp split: if_splits)
qed

lemma YearFromTime_unique:
  assumes "DayFromYear y \<le> t" "t < DayFromYear (y + 1)"
  shows "YearFromTime t = y"
proof (rule ccontr)
  assume ne: "YearFromTime t \<noteq> y"
  show False
  proof (cases "YearFromTime t < y")
    case True
    hence "DayFromYear (YearFromTime t + 1) \<le> DayFromYear y" by (intro DayFromYear_mono) simp
    thus False using YearFromTime_bounds(2)[of t] assms by linarith
  next
    case False
    hence "DayFromYear (y + 1) \<le> DayFromYear (YearFromTime t)" using ne by (intro DayFromYear_mono) simp
    thus False using YearFromTime_bounds(1)[of t] assms by linarith
  qed
qed

lemma DayWithinYear_range:
  "0 \<le> DayWithinYear t" "DayWithinYear t < (if InLeapYear (YearFromTime t) then 366 else 365)"
  using YearFromTime_bounds[of t] DayFromYear_step[of "YearFromTime t"]
  by (auto simp: DayWithinYear_def)















section \<open>Properties of the pattern parser\<close>

lemma strip_prefix_eq: "strip_prefix p s = Some r \<longleftrightarrow> s = p @ r"
  by (induction p s rule: strip_prefix.induct) auto

lemma strip_prefix_append: "strip_prefix p (p @ r) = Some r"
  by (simp add: strip_prefix_eq)

lemma regex_search_found:
  "regex_search m s \<noteq> None \<longleftrightarrow> (\<exists>pre suf. s = pre @ suf \<and> m suf \<noteq> None)"
proof
  show "regex_search m s \<noteq> None \<Longrightarrow> \<exists>pre suf. s = pre @ suf \<and> m suf \<noteq> None"
  proof (induction s)
    case Nil
    thus ?case by auto
  next
    case (Cons c cs)
    show ?case
    proof (cases "m (c # cs)")
      case None
      with Cons.prems have "regex_search m cs \<noteq> None" by simp
      from Cons.IH[OF this] obtain pre suf where "cs = pre @ suf" "m suf \<noteq> None" by blast
      hence "c # cs = (c # pre) @ suf \<and> m suf \<noteq> None" by simp
      thus ?thesis by blast
    next
      case (Some r)
      hence "c # cs = [] @ (c # cs) \<and> m (c # cs) \<noteq> None" by simp
      thus ?thesis by blast
    qed
  qed
next
  assume "\<exists>pre suf. s = pre @ suf \<and> m suf \<noteq> None"
  then obtain pre suf where s: "s = pre @ suf" and m: "m suf \<noteq> None" by blast
  have "regex_search m (pre @ suf) \<noteq> None"
  proof (induction pre)
    case Nil
    show ?case using m by (cases suf) (auto split: option.splits)
  next
    case (Cons p ps)
    thus ?case by (auto split: option.splits)
  qed
  thus "regex_search m s \<noteq> None" by (simp add: s)
qed

lemma match_unit_Some:
  "match_unit s = Some (u, r) \<Longrightarrow>
   \<exists>w. w \<in> {''day'', ''week'', ''month'', ''year''} \<and> s = w @ r"
  by (auto simp: match_unit_def strip_prefix_eq split: option.splits)

lemma match_unit_complete:
  "w \<in> {''day'', ''week'', ''month'', ''year''} \<Longrightarrow> match_unit (w @ r) \<noteq> None"
  by (auto simp: match_unit_def split: option.splits)

lemma match_suffix_Some:
  "match_suffix s = Some r \<Longrightarrow> \<exists>w. w \<in> {''st'', ''nd'', ''rd'', ''th''} \<and> s = w @ r"
  by (auto simp: match_suffix_def strip_prefix_eq split: option.splits)

lemma match_suffix_complete:
  "w \<in> {''st'', ''nd'', ''rd'', ''th''} \<Longrightarrow> match_suffix (w @ r) \<noteq> None"
  by (auto simp: match_suffix_def split: option.splits)

lemma digits_takeWhile: "list_all is_digit (takeWhile is_digit r)"
  by (simp add: list_all_iff) (meson set_takeWhileD)

lemma takeWhile_digits:
  assumes "list_all is_digit ds" "\<not> is_digit x"
  shows "takeWhile is_digit (ds @ x # r) = ds" "dropWhile is_digit (ds @ x # r) = x # r"
  using assms by (simp_all add: list_all_iff takeWhile_tail dropWhile_append3)

lemma match_regular_Some:
  assumes "match_regular s = Some (ds, u, w)"
  shows "regular_occurrence ds s"
proof -
  from assms obtain r1 where r1: "s = ''every '' @ r1"
    by (auto simp: match_regular_def strip_prefix_eq split: option.splits)
  hence sp: "strip_prefix ''every '' s = Some r1" by (simp only: strip_prefix_eq)
  from assms sp have ds: "ds = takeWhile is_digit r1" "ds \<noteq> []"
    by (auto simp: match_regular_def Let_def split: option.splits if_splits)
  from assms sp ds obtain r3 r4 where r3: "dropWhile is_digit r1 = '' '' @ r3"
    and u: "match_unit r3 = Some (u, r4)"
    by (auto simp: match_regular_def Let_def strip_prefix_eq split: option.splits if_splits)
  from match_unit_Some[OF u] obtain x where x: "x \<in> {''day'', ''week'', ''month'', ''year''}"
    "r3 = x @ r4" by blast
  have "s = ''every '' @ (takeWhile is_digit r1 @ dropWhile is_digit r1)" using r1 by simp
  also have "\<dots> = [] @ ''every '' @ ds @ '' '' @ x @ r4" unfolding r3 x(2) ds(1) by simp
  finally show ?thesis unfolding regular_occurrence_def using ds x digits_takeWhile by blast
qed

lemma match_monthday_Some:
  assumes "match_monthday s = Some ds"
  shows "monthday_occurrence ds s"
proof -
  from assms obtain r1 where r1: "s = ''every '' @ r1"
    by (auto simp: match_monthday_def strip_prefix_eq split: option.splits)
  hence sp: "strip_prefix ''every '' s = Some r1" by (simp only: strip_prefix_eq)
  from assms sp have ds: "ds = takeWhile is_digit r1" "ds \<noteq> []"
    by (auto simp: match_monthday_def Let_def split: option.splits if_splits)
  from assms sp ds obtain r3 r4 where r3: "match_suffix (dropWhile is_digit r1) = Some r3"
    and r4: "r3 = '' of the month'' @ r4"
    by (auto simp: match_monthday_def Let_def strip_prefix_eq split: option.splits if_splits)
  from match_suffix_Some[OF r3] obtain x where x: "x \<in> {''st'', ''nd'', ''rd'', ''th''}"
    "dropWhile is_digit r1 = x @ r3" by blast
  have "s = ''every '' @ (takeWhile is_digit r1 @ dropWhile is_digit r1)" using r1 by simp
  also have "\<dots> = [] @ ''every '' @ ds @ x @ '' of the month'' @ r4"
    unfolding x(2) r4 ds(1) by simp
  finally show ?thesis unfolding monthday_occurrence_def using ds x digits_takeWhile by blast
qed

lemma match_regular_complete:
  assumes "ds \<noteq> []" "list_all is_digit ds" "u \<in> {''day'', ''week'', ''month'', ''year''}"
  shows "match_regular (''every '' @ ds @ '' '' @ u @ rest) \<noteq> None"
proof -
  define r3 where "r3 = u @ rest"
  define r1 where "r1 = ds @ CHR '' '' # r3"
  have nd: "\<not> is_digit (CHR '' '')" by (simp add: is_digit_def)
  have t: "takeWhile is_digit r1 = ds" "dropWhile is_digit r1 = CHR '' '' # r3"
    unfolding r1_def using takeWhile_digits[OF assms(2) nd] by simp_all
  from match_unit_complete[OF assms(3), of rest]
  obtain v r where m: "match_unit r3 = Some (v, r)" unfolding r3_def by auto
  have "match_regular (''every '' @ r1) \<noteq> None"
    using assms(1) by (simp add: match_regular_def Let_def t m)
  thus ?thesis by (simp add: r1_def r3_def)
qed

lemma match_monthday_complete:
  assumes "ds \<noteq> []" "list_all is_digit ds" "u \<in> {''st'', ''nd'', ''rd'', ''th''}"
  shows "match_monthday (''every '' @ ds @ u @ '' of the month'' @ rest) \<noteq> None"
proof -
  define r3 where "r3 = '' of the month'' @ rest"
  define r2 where "r2 = u @ r3"
  define r1 where "r1 = ds @ r2"
  from assms(3) obtain x xs where u: "u = x # xs" "\<not> is_digit x" by (auto simp: is_digit_def)
  have t: "takeWhile is_digit r1 = ds" "dropWhile is_digit r1 = r2"
    unfolding r1_def r2_def using takeWhile_digits[OF assms(2) u(2), of "xs @ r3"] u(1) by simp_all
  have ms: "match_suffix r2 = Some r3"
    unfolding r2_def using assms(3) by (auto simp: match_suffix_def split: option.splits)
  have sp: "strip_prefix '' of the month'' r3 = Some rest"
    unfolding r3_def by (rule strip_prefix_append)
  have "match_monthday (''every '' @ r1) \<noteq> None"
    using assms(1) by (simp add: match_monthday_def Let_def t ms sp)
  thus ?thesis by (simp add: r1_def r2_def r3_def)
qed

lemma isValidRegular_iff: "isValidRegular s \<longleftrightarrow> (\<exists>ds. regular_occurrence ds s)"
proof
  assume "isValidRegular s"
  then obtain pre suf r where s: "s = pre @ suf" and m: "match_regular suf = Some r"
    unfolding isValidRegular_def regex_search_found by auto
  obtain ds u w where "r = (ds, u, w)" by (cases r) auto
  from match_regular_Some[OF m[unfolded this]] s show "\<exists>ds. regular_occurrence ds s"
    unfolding regular_occurrence_def by (metis append.assoc)
next
  assume "\<exists>ds. regular_occurrence ds s"
  then obtain ds pre u rest where d: "ds \<noteq> []" "list_all is_digit ds"
    "u \<in> {''day'', ''week'', ''month'', ''year''}" "s = pre @ ''every '' @ ds @ '' '' @ u @ rest"
    unfolding regular_occurrence_def by blast
  from match_regular_complete[OF d(1,2,3), of rest] d(4)
  show "isValidRegular s" unfolding isValidRegular_def regex_search_found by blast
qed

lemma isValidMonthDay_iff: "isValidMonthDay s \<longleftrightarrow> (\<exists>ds. monthday_occurrence ds s)"
proof
  assume "isValidMonthDay s"
  then obtain pre suf r where s: "s = pre @ suf" and m: "match_monthday suf = Some r"
    unfolding isValidMonthDay_def regex_search_found by auto
  from match_monthday_Some[OF m] s show "\<exists>ds. monthday_occurrence ds s"
    unfolding monthday_occurrence_def by (metis append.assoc)
next
  assume "\<exists>ds. monthday_occurrence ds s"
  then obtain ds pre u rest where d: "ds \<noteq> []" "list_all is_digit ds"
    "u \<in> {''st'', ''nd'', ''rd'', ''th''}" "s = pre @ ''every '' @ ds @ u @ '' of the month'' @ rest"
    unfolding monthday_occurrence_def by blast
  from match_monthday_complete[OF d(1,2,3), of rest] d(4)
  show "isValidMonthDay s" unfolding isValidMonthDay_def regex_search_found by blast
qed

lemma parse_error_iff:
  "parseRecurringPattern s = Inl InvalidPattern \<longleftrightarrow> \<not> isValidRegular s \<and> \<not> isValidMonthDay s"
  by (auto simp: parseRecurringPattern_def isValidRegular_def isValidMonthDay_def Let_def
      split: option.splits)

lemma parse_succeeds_iff:
  "(\<exists>r. parseRecurringPattern s = Inr r) \<longleftrightarrow> isValidRegular s \<or> isValidMonthDay s"
  by (auto simp: parseRecurringPattern_def isValidRegular_def isValidMonthDay_def Let_def
      split: option.splits)

lemma spec_tails_A_unit:
  "tl' \<in> set spec_tails_A \<Longrightarrow>
   \<exists>u rest. u \<in> {''day'', ''week'', ''month'', ''year''} \<and> tl' = u @ rest"
proof -
  assume "tl' \<in> set spec_tails_A"
  hence "(\<exists>rest. tl' = ''day'' @ rest) \<or> (\<exists>rest. tl' = ''week'' @ rest)
       \<or> (\<exists>rest. tl' = ''month'' @ rest) \<or> (\<exists>rest. tl' = ''year'' @ rest)"
    by (auto simp: spec_tails_A_def weekdays_def)
  thus ?thesis by blast
qed

lemma spec_tails_B_suffix:
  assumes "tl' \<in> set spec_tails_B"
  shows "\<exists>u. u \<in> {''st'', ''nd'', ''rd'', ''th''} \<and> tl' = u @ '' of the month'' @ []"
proof -
  from assms have "tl' = ''st'' @ '' of the month'' @ [] \<or> tl' = ''nd'' @ '' of the month'' @ []
      \<or> tl' = ''rd'' @ '' of the month'' @ [] \<or> tl' = ''th'' @ '' of the month'' @ []"
    by (simp add: spec_tails_B_def)
  thus ?thesis by blast
qed

lemma spec_grammar_occurrence:
  assumes "spec_grammar s"
  shows "\<exists>ds. (regular_occurrence ds s \<or> monthday_occurrence ds s) \<and> 0 < parseInt ds"
proof -
  from assms consider (A) "spec_grammar_A s" | (B) "spec_grammar_B s"
    by (auto simp: spec_grammar_def)
  thus ?thesis
  proof cases
    case A
    obtain r where sp: "strip_prefix ''every '' s = Some r"
      using A by (cases "strip_prefix ''every '' s") (simp_all add: spec_grammar_A_def)
    hence r: "s = ''every '' @ r" by (simp only: strip_prefix_eq)
    from A sp have ds: "takeWhile is_digit r \<noteq> []" "0 < parseInt (takeWhile is_digit r)"
      by (simp_all add: spec_grammar_A_def Let_def)
    obtain tl' where sp2: "strip_prefix '' '' (dropWhile is_digit r) = Some tl'"
      using A sp by (cases "strip_prefix '' '' (dropWhile is_digit r)")
        (simp_all add: spec_grammar_A_def Let_def)
    hence d: "dropWhile is_digit r = '' '' @ tl'" by (simp only: strip_prefix_eq)
    from A sp sp2 have t: "tl' \<in> set spec_tails_A" by (simp add: spec_grammar_A_def Let_def)
    from spec_tails_A_unit[OF t] obtain u rest where
      u: "u \<in> {''day'', ''week'', ''month'', ''year''}" "tl' = u @ rest" by blast
    have "s = ''every '' @ (takeWhile is_digit r @ dropWhile is_digit r)" using r by simp
    also have "\<dots> = [] @ ''every '' @ takeWhile is_digit r @ '' '' @ u @ rest"
      unfolding d u(2) by simp
    finally have "regular_occurrence (takeWhile is_digit r) s"
      unfolding regular_occurrence_def using ds(1) u(1) digits_takeWhile by blast
    thus ?thesis using ds(2) by blast
  next
    case B
    obtain r where sp: "strip_prefix ''every '' s = Some r"
      using B by (cases "strip_prefix ''every '' s") (simp_all add: spec_grammar_B_def)
    hence r: "s = ''every '' @ r" by (simp only: strip_prefix_eq)
    from B sp have ds: "takeWhile is_digit r \<noteq> []" "0 < parseInt (takeWhile is_digit r)"
      and t: "dropWhile is_digit r \<in> set spec_tails_B"
      by (simp_all add: spec_grammar_B_def Let_def)
    from spec_tails_B_suffix[OF t] obtain u where
      u: "u \<in> {''st'', ''nd'', ''rd'', ''th''}" "dropWhile is_digit r = u @ '' of the month'' @ []"
      by blast
    have "s = ''every '' @ (takeWhile is_digit r @ dropWhile is_digit r)" using r by simp
    also have "\<dots> = [] @ ''every '' @ takeWhile is_digit r @ u @ '' of the month'' @ []"
      unfolding u(2) by simp
    finally have "monthday_occurrence (takeWhile is_digit r) s"
      unfolding monthday_occurrence_def using ds(1) u(1) digits_takeWhile by blast
    thus ?thesis using ds(2) by blast
  qed
qed

lemma no_occurrence_without_v: "CHR ''v'' \<notin> set s \<Longrightarrow> no_occurrence s"
  by (auto simp: no_occurrence_def regular_occurrence_def monthday_occurrence_def)


text \<open>
  Claim C1, as the code has it: \<^verbatim>\<open>parseRecurringPattern\<close> succeeds on every string that
  contains, at any place, the text \<^verbatim>\<open>every {N} {day|week|month|year}\<close> or the text
  \<^verbatim>\<open>every {N}{st|nd|rd|th} of the month\<close> with a decimal number \<open>N\<close> of at least 1, so in
  particular on every string of the two grammars; and it throws the invalid-pattern error on
  every string that contains no such text for any string of digits. The match is not
  anchored and the weekday clause is not checked: text before and after the match, an
  \<^verbatim>\<open>on {word}\<close> clause after any unit and any word in place of a weekday name are accepted.
\<close>

theorem parse_accepts_by_occurrence:
  "((\<exists>ds. (regular_occurrence ds s \<or> monthday_occurrence ds s) \<and> 0 < parseInt ds)
      \<longrightarrow> (\<exists>r. parseRecurringPattern s = Inr r)) \<and>
   (spec_grammar s \<longrightarrow> (\<exists>r. parseRecurringPattern s = Inr r)) \<and>
   (no_occurrence s \<longrightarrow> parseRecurringPattern s = Inl InvalidPattern)"
proof (intro conjI impI)
  assume "\<exists>ds. (regular_occurrence ds s \<or> monthday_occurrence ds s) \<and> 0 < parseInt ds"
  thus "\<exists>r. parseRecurringPattern s = Inr r"
    unfolding parse_succeeds_iff isValidRegular_iff isValidMonthDay_iff by blast
next
  assume "spec_grammar s"
  from spec_grammar_occurrence[OF this] show "\<exists>r. parseRecurringPattern s = Inr r"
    unfolding parse_succeeds_iff isValidRegular_iff isValidMonthDay_iff by blast
next
  assume "no_occurrence s"
  thus "parseRecurringPattern s = Inl InvalidPattern"
    unfolding parse_error_iff isValidRegular_iff isValidMonthDay_iff no_occurrence_def by blast
qed

theorem parse_accepts_by_occurrence_witness:
  "spec_grammar ''every 2 weeks on monday'' \<and>
   (\<exists>r. parseRecurringPattern ''every 2 weeks on monday'' = Inr r) \<and>
   regular_occurrence ''3'' ''pay every 3 days!'' \<and> 0 < parseInt ''3'' \<and>
   (\<exists>r. parseRecurringPattern ''pay every 3 days!'' = Inr r) \<and>
   no_occurrence ''monthly'' \<and> parseRecurringPattern ''monthly'' = Inl InvalidPattern"
proof -
  have g: "spec_grammar ''every 2 weeks on monday''" by code_simp
  have "''pay every 3 days!'' = ''pay '' @ ''every '' @ ''3'' @ '' '' @ ''day'' @ ''s!''" by simp
  hence o: "regular_occurrence ''3'' ''pay every 3 days!''"
    unfolding regular_occurrence_def by (intro conjI exI[of _ "''pay ''"] exI[of _ "''day''"] exI[of _ "''s!''"]) (simp_all add: is_digit_def)
  have p: "0 < parseInt ''3''" by code_simp
  have n: "no_occurrence ''monthly''" by (rule no_occurrence_without_v) simp
  from parse_accepts_by_occurrence[of "''every 2 weeks on monday''"] g
       parse_accepts_by_occurrence[of "''pay every 3 days!''"] o p
       parse_accepts_by_occurrence[of "''monthly''"] n
  show ?thesis by blast
qed

text \<open>
  Claim C1 as stated (success exactly on the strings of the two grammars, with a lower-case
  weekday name) fails: the parser lower-cases the word after \<^verbatim>\<open>on\<close> itself, so
  \<^verbatim>\<open>every 2 week on Monday\<close>, which is in neither grammar, yields a rule. Likewise
  \<^verbatim>\<open>every 1 day on monday\<close> (a weekday clause after \<^verbatim>\<open>day\<close>) yields a rule.
\<close>

theorem parse_accepts_outside_grammar:
  "\<not> spec_grammar ''every 2 week on Monday'' \<and>
   parseRecurringPattern ''every 2 week on Monday'' =
     Inr \<lparr>interval = 2, unit = Week, dayOfWeek = Some ''monday'', dayOfMonth = None\<rparr>"
  by code_simp

section \<open>Properties of the expansion loop\<close>


lemma gen_loop_stop:
  "\<not> num_le (Some t) u \<Longrightarrow> gen_loop tz tr pat u rs re (Some t) added inst = Some inst"
  by (subst gen_loop.simps) simp

lemma gen_loop_emit:
  "num_le (Some t) u \<Longrightarrow> num_le rs (Some t) \<Longrightarrow> num_le (Some t) re \<Longrightarrow>
   isoDateString t \<notin> added \<Longrightarrow>
   gen_loop tz tr pat u rs re (Some t) added inst =
   gen_loop tz tr pat u rs re (advance tz pat (Some t)) (insert (isoDateString t) added)
     (inst @ [make_instance tr (isoDateString t)])"
  by (subst gen_loop.simps) simp


text \<open>When the step leaves the date where it is and the date is not after the end bound, the
  loop does not return.\<close>

lemma gen_loop_never_returns:
  assumes "gen_loop tz tr pat u rs re c added inst = Some y"
  shows "\<not> (advance tz pat c = c \<and> num_le c u)"
proof (rule gen_loop.raw_induct[where P = "\<lambda>tz tr pat u rs re c added inst y.
          \<not> (advance tz pat c = c \<and> num_le c u)", OF _ assms])
  fix f :: "zone \<Rightarrow> txo \<Rightarrow> rpattern \<Rightarrow> jsdate \<Rightarrow> jsdate \<Rightarrow> jsdate \<Rightarrow> jsdate \<Rightarrow> string set
              \<Rightarrow> txo list \<Rightarrow> txo list option"
  fix tz tr pat u rs re c added inst y
  assume IH: "\<And>tz tr pat u rs re c added inst y. f tz tr pat u rs re c added inst = Some y \<Longrightarrow>
          \<not> (advance tz pat c = c \<and> num_le c u)"
  assume body: "(case c of
      None \<Rightarrow> Some inst
    | Some t \<Rightarrow>
        if num_le (Some t) u
        then if num_le rs (Some t) \<and> num_le (Some t) re \<and> isoDateString t \<notin> added
             then f tz tr pat u rs re (advance tz pat (Some t)) (insert (isoDateString t) added)
                    (inst @ [make_instance tr (isoDateString t)])
             else f tz tr pat u rs re (advance tz pat (Some t)) added inst
        else Some inst) = Some y"
  show "\<not> (advance tz pat c = c \<and> num_le c u)"
  proof
    assume a: "advance tz pat c = c \<and> num_le c u"
    then obtain t where c: "c = Some t" by (cases c) simp_all
    from body a
    have "f tz tr pat u rs re c (insert (isoDateString t) added)
            (inst @ [make_instance tr (isoDateString t)]) = Some y
        \<or> f tz tr pat u rs re c added inst = Some y"
      by (simp add: c split: if_splits)
    thus False using IH a by blast
  qed
qed

lemma gen_loop_diverges:
  assumes "advance tz pat c = c" "num_le c u"
  shows "gen_loop tz tr pat u rs re c added inst = None"
proof (cases "gen_loop tz tr pat u rs re c added inst")
  case (Some y)
  from gen_loop_never_returns[OF this] assms show ?thesis by simp
qed simp




lemma date_make_instance: "date (make_instance t d) = d"
  by (simp add: make_instance_def)

lemma tid_make_instance: "tid (make_instance t d) = tid t @ ''-'' @ d"
  by (simp add: make_instance_def)

lemma parse_every_2_week_on_monday:
  "parseRecurringPattern ''every 2 week on monday'' =
     Inr \<lparr>interval = 2, unit = Week, dayOfWeek = Some ''monday'', dayOfMonth = None\<rparr>"
  by code_simp

lemma parse_every_0_day:
  "parseRecurringPattern ''every 0 day'' =
     Inr \<lparr>interval = 0, unit = Day, dayOfWeek = None, dayOfMonth = None\<rparr>"
  by code_simp

lemma parse_every_1_day:
  "parseRecurringPattern ''every 1 day'' =
     Inr \<lparr>interval = 1, unit = Day, dayOfWeek = None, dayOfMonth = None\<rparr>"
  by code_simp


lemma parse_every_31st:
  "parseRecurringPattern ''every 31st of the month'' =
     Inr \<lparr>interval = 1, unit = MonthDay, dayOfWeek = None, dayOfMonth = Some 31\<rparr>"
  by code_simp


lemma generate_diverges:
  assumes "recurring t = Some rc" "pattern rc \<noteq> []"
    and "parseRecurringPattern (pattern rc) = Inr pat"
    and "first_occurrence tz pat (dateOf tz (date t)) (dateOf tz startDate) = c"
    and "advance tz pat c = c"
    and "num_le c (case until rc of None \<Rightarrow> dateOf tz endDate
                   | Some u \<Rightarrow> if u = [] then dateOf tz endDate else dateOf tz u)"
  shows "generateRecurringInstances tz t startDate endDate = None"
  using assms by (simp add: generateRecurringInstances_def Let_def gen_loop_diverges)

text \<open>The dates and the steps of the scenarios below, evaluated with the server in UTC.\<close>

lemma utc_dates:
  "dateOf utc ''2025-01-01'' = Some 1735689600000"
  "dateOf utc ''2025-01-30'' = Some 1738195200000"
  "dateOf utc ''2025-01-31'' = Some 1738281600000"
  "dateOf utc ''2025-02-01'' = Some 1738368000000"
  "dateOf utc ''2025-02-03'' = Some 1738540800000"
  "dateOf utc ''2025-03-10'' = Some 1741564800000"
  "dateOf utc ''2025-04-30'' = Some 1745971200000"
  by code_simp+

lemma utc_strings:
  "isoDateString 1738195200000 = ''2025-01-30''"
  "isoDateString 1738281600000 = ''2025-01-31''"
  "isoDateString 1738540800000 = ''2025-02-03''"
  "isoDateString 1739750400000 = ''2025-02-17''"
  "isoDateString 1740960000000 = ''2025-03-03''"
  "isoDateString 1743638400000 = ''2025-04-03''"
  by code_simp+

lemma biweekly_utc:
  "first_occurrence utc \<lparr>interval = 2, unit = Week, dayOfWeek = Some ''monday'', dayOfMonth = None\<rparr>
     (Some 1738540800000) (Some 1738368000000) = Some 1738540800000"
  "advance utc \<lparr>interval = 2, unit = Week, dayOfWeek = Some ''monday'', dayOfMonth = None\<rparr>
     (Some 1738540800000) = Some 1739750400000"
  "advance utc \<lparr>interval = 2, unit = Week, dayOfWeek = Some ''monday'', dayOfMonth = None\<rparr>
     (Some 1739750400000) = Some 1740960000000"
  "advance utc \<lparr>interval = 2, unit = Week, dayOfWeek = Some ''monday'', dayOfMonth = None\<rparr>
     (Some 1740960000000) = Some 1742169600000"
  by code_simp+

lemma biweekly_expansion_utc:
  fixes T :: txo
  assumes "date T = ''2025-02-03''"
    and "recurring T = Some \<lparr>pattern = ''every 2 week on monday'', until = None\<rparr>"
  shows "generateRecurringInstances utc T ''2025-02-01'' ''2025-03-10'' =
     Some (Inr [make_instance T ''2025-02-03'', make_instance T ''2025-02-17'',
                make_instance T ''2025-03-03''])"
  using assms
  by (simp add: generateRecurringInstances_def parse_every_2_week_on_monday utc_dates
        utc_strings biweekly_utc gen_loop_emit gen_loop_stop)

lemma monthday_utc:
  "first_occurrence utc \<lparr>interval = 1, unit = MonthDay, dayOfWeek = None, dayOfMonth = Some 31\<rparr>
     (Some 1738281600000) (Some 1735689600000) = Some 1738281600000"
  "advance utc \<lparr>interval = 1, unit = MonthDay, dayOfWeek = None, dayOfMonth = Some 31\<rparr>
     (Some 1738281600000) = Some 1740960000000"
  "advance utc \<lparr>interval = 1, unit = MonthDay, dayOfWeek = None, dayOfMonth = Some 31\<rparr>
     (Some 1740960000000) = Some 1743638400000"
  "advance utc \<lparr>interval = 1, unit = MonthDay, dayOfWeek = None, dayOfMonth = Some 31\<rparr>
     (Some 1743638400000) = Some 1746230400000"
  by code_simp+

lemma monthday_expansion_utc:
  fixes T :: txo
  assumes "date T = ''2025-01-31''"
    and "recurring T = Some \<lparr>pattern = ''every 31st of the month'', until = None\<rparr>"
  shows "generateRecurringInstances utc T ''2025-01-01'' ''2025-04-30'' =
     Some (Inr [make_instance T ''2025-01-31'', make_instance T ''2025-03-03'',
                make_instance T ''2025-04-03''])"
  using assms
  by (simp add: generateRecurringInstances_def parse_every_31st utc_dates
        utc_strings monthday_utc gen_loop_emit gen_loop_stop)

text \<open>The same with the server in Asia/Tokyo.\<close>

lemma tokyo_dates:
  "dateOf tokyo ''2025-01-01'' = Some 1735657200000"
  "dateOf tokyo ''2025-01-03'' = Some 1735830000000"
  "dateOf tokyo ''2025-01-31'' = Some 1738249200000"
  "dateOf tokyo ''2025-02-01'' = Some 1738335600000"
  "dateOf tokyo ''2025-02-02'' = Some 1738422000000"
  "dateOf tokyo ''2025-02-03'' = Some 1738508400000"
  "dateOf tokyo ''2025-03-10'' = Some 1741532400000"
  by code_simp+

lemma tokyo_strings:
  "isoDateString 1735657200000 = ''2024-12-31''"
  "isoDateString 1735743600000 = ''2025-01-01''"
  "isoDateString 1735830000000 = ''2025-01-02''"
  "isoDateString 1738508400000 = ''2025-02-02''"
  "isoDateString 1739718000000 = ''2025-02-16''"
  "isoDateString 1740927600000 = ''2025-03-02''"
  by code_simp+

lemma biweekly_tokyo:
  "first_occurrence tokyo \<lparr>interval = 2, unit = Week, dayOfWeek = Some ''monday'', dayOfMonth = None\<rparr>
     (Some 1738422000000) (Some 1738335600000) = Some 1738508400000"
  "first_occurrence tokyo \<lparr>interval = 2, unit = Week, dayOfWeek = Some ''monday'', dayOfMonth = None\<rparr>
     (Some 1738508400000) (Some 1738335600000) = Some 1738508400000"
  "advance tokyo \<lparr>interval = 2, unit = Week, dayOfWeek = Some ''monday'', dayOfMonth = None\<rparr>
     (Some 1738508400000) = Some 1739718000000"
  "advance tokyo \<lparr>interval = 2, unit = Week, dayOfWeek = Some ''monday'', dayOfMonth = None\<rparr>
     (Some 1739718000000) = Some 1740927600000"
  "advance tokyo \<lparr>interval = 2, unit = Week, dayOfWeek = Some ''monday'', dayOfMonth = None\<rparr>
     (Some 1740927600000) = Some 1742137200000"
  by code_simp+

lemma biweekly_expansion_tokyo:
  fixes T :: txo
  assumes "date T = ''2025-02-02'' \<or> date T = ''2025-02-03''"
    and "recurring T = Some \<lparr>pattern = ''every 2 week on monday'', until = None\<rparr>"
  shows "generateRecurringInstances tokyo T ''2025-02-01'' ''2025-03-10'' =
     Some (Inr [make_instance T ''2025-02-02'', make_instance T ''2025-02-16'',
                make_instance T ''2025-03-02''])"
  using assms
  by (auto simp: generateRecurringInstances_def parse_every_2_week_on_monday tokyo_dates
        tokyo_strings biweekly_tokyo gen_loop_emit gen_loop_stop)

lemma daily_tokyo:
  "advance tokyo \<lparr>interval = 1, unit = Day, dayOfWeek = None, dayOfMonth = None\<rparr>
     (Some 1735657200000) = Some 1735743600000"
  "advance tokyo \<lparr>interval = 1, unit = Day, dayOfWeek = None, dayOfMonth = None\<rparr>
     (Some 1735743600000) = Some 1735830000000"
  "advance tokyo \<lparr>interval = 1, unit = Day, dayOfWeek = None, dayOfMonth = None\<rparr>
     (Some 1735830000000) = Some 1735916400000"
  by code_simp+

lemma daily_expansion_tokyo:
  fixes T :: txo
  assumes "date T = ''2025-01-01''"
    and "recurring T = Some \<lparr>pattern = ''every 1 day'', until = None\<rparr>"
  shows "generateRecurringInstances tokyo T ''2025-01-01'' ''2025-01-03'' =
     Some (Inr [make_instance T ''2024-12-31'', make_instance T ''2025-01-01'',
                make_instance T ''2025-01-02''])"
  using assms
  by (simp add: generateRecurringInstances_def parse_every_1_day tokyo_dates
        tokyo_strings daily_tokyo first_occurrence_def gen_loop_emit gen_loop_stop)

section \<open>The claims about the expansion\<close>

text \<open>
  Claim C2: for every rule that the parser produces and for all anchor dates, end bounds and
  windows, the expansion terminates and returns a finite sequence of instances.

  The parser accepts the interval 0 (\<open>parse_every_0_day\<close>), and with it the loop never
  advances: for a transaction dated 2025-01-01 with the pattern \<^verbatim>\<open>every 0 day\<close> and the
  window from 2025-01-01 to 2025-01-31 the expansion does not return, in UTC as in
  Asia/Tokyo. (With an interval of at least 1 it always returns, see \<open>generate_returns\<close>.)
\<close>

theorem every_0_day_never_returns:
  "generateRecurringInstances utc
     (with_type Income \<lparr>tid = i, amount = a, description = d, date = ''2025-01-01'',
        category = c, recurring = Some \<lparr>pattern = ''every 0 day'', until = None\<rparr>\<rparr>)
     ''2025-01-01'' ''2025-01-31'' = None \<and>
   generateRecurringInstances tokyo
     (with_type Income \<lparr>tid = i, amount = a, description = d, date = ''2025-01-01'',
        category = c, recurring = Some \<lparr>pattern = ''every 0 day'', until = None\<rparr>\<rparr>)
     ''2025-01-01'' ''2025-01-31'' = None"
proof -
  let ?p = "\<lparr>interval = 0, unit = Day, dayOfWeek = None, dayOfMonth = None\<rparr>"
  have u: "advance utc ?p (Some 1735689600000) = Some 1735689600000" by code_simp
  have t: "advance tokyo ?p (Some 1735657200000) = Some 1735657200000" by code_simp
  have 1: "generateRecurringInstances utc
     (with_type Income \<lparr>tid = i, amount = a, description = d, date = ''2025-01-01'',
        category = c, recurring = Some \<lparr>pattern = ''every 0 day'', until = None\<rparr>\<rparr>)
     ''2025-01-01'' ''2025-01-31'' = None"
    by (rule generate_diverges[where rc = "\<lparr>pattern = ''every 0 day'', until = None\<rparr>"
          and pat = ?p and c = "Some 1735689600000"])
       (simp_all add: with_type_def tx.defs first_occurrence_def utc_dates parse_every_0_day u)
  have 2: "generateRecurringInstances tokyo
     (with_type Income \<lparr>tid = i, amount = a, description = d, date = ''2025-01-01'',
        category = c, recurring = Some \<lparr>pattern = ''every 0 day'', until = None\<rparr>\<rparr>)
     ''2025-01-01'' ''2025-01-31'' = None"
    by (rule generate_diverges[where rc = "\<lparr>pattern = ''every 0 day'', until = None\<rparr>"
          and pat = ?p and c = "Some 1735657200000"])
       (simp_all add: with_type_def tx.defs first_occurrence_def tokyo_dates parse_every_0_day t)
  show ?thesis using 1 2 by (rule conjI)
qed

lemma adjusted_dates_utc:
  "adjustedDate utc ''2025-02-01''
     \<lparr>interval = 2, unit = Week, dayOfWeek = Some ''monday'', dayOfMonth = None\<rparr>
     = Some ''2025-02-03''"
  "adjustedDate utc ''2025-01-15''
     \<lparr>interval = 1, unit = MonthDay, dayOfWeek = None, dayOfMonth = Some 31\<rparr>
     = Some ''2025-01-31''"
  by code_simp+

lemma adjusted_dates_tokyo:
  "adjustedDate tokyo ''2025-02-01''
     \<lparr>interval = 2, unit = Week, dayOfWeek = Some ''monday'', dayOfMonth = None\<rparr>
     = Some ''2025-02-02''"
  "adjustedDate tokyo ''2025-02-01''
     \<lparr>interval = 1, unit = Week, dayOfWeek = Some ''monday'', dayOfMonth = None\<rparr>
     = Some ''2025-02-02''"
  "adjustedDate tokyo ''2025-02-03''
     \<lparr>interval = 1, unit = Week, dayOfWeek = Some ''monday'', dayOfMonth = None\<rparr>
     = Some ''2025-02-02''"
  by code_simp+

text \<open>
  Claim C4: for a month-day rule every occurrence that the expansion emits falls on the
  rule's day of the month, also after the stepping has crossed a month with fewer days.

  The stepping is \<^verbatim>\<open>setMonth(getMonth() + 1)\<close>, which rolls a missing day over into the next
  month and then keeps the rolled-over day: for \<^verbatim>\<open>every 31st of the month\<close>, stored with the
  date 2025-01-31 (the date that the create handler computes from 2025-01-15), the window
  from 2025-01-01 to 2025-04-30 holds the instances 2025-01-31, 2025-03-03 and 2025-04-03
  (server in UTC).
\<close>

theorem every_31st_leaves_day_31:
  "adjustedDate utc ''2025-01-15''
     \<lparr>interval = 1, unit = MonthDay, dayOfWeek = None, dayOfMonth = Some 31\<rparr>
     = Some ''2025-01-31'' \<and>
   map_option (map_sum id (map date))
     (generateRecurringInstances utc
        (with_type Income \<lparr>tid = i, amount = a, description = d, date = ''2025-01-31'',
           category = c,
           recurring = Some \<lparr>pattern = ''every 31st of the month'', until = None\<rparr>\<rparr>)
        ''2025-01-01'' ''2025-04-30'') =
   Some (Inr [''2025-01-31'', ''2025-03-03'', ''2025-04-03''])"
  by (simp add: adjusted_dates_utc monthday_expansion_utc with_type_def tx.defs
        date_make_instance)

text \<open>
  Claim C6: the proposed date 2025-02-01 is a Saturday; with the rule
  \<^verbatim>\<open>every 2 week on monday\<close> the resolved anchor is 2025-02-03, and the expansion of that
  anchor over the window from 2025-02-01 to 2025-03-10 yields exactly 2025-02-03,
  2025-02-17 and 2025-03-03.

  This is what the code does when the server runs in UTC (the last two parts of the
  theorem). The code builds its dates at local midnight and prints them with
  \<^verbatim>\<open>toISOString()\<close>, which is the date in UTC: east of Greenwich that is the day before. With
  the server in Asia/Tokyo the create handler stores 2025-02-02 for the proposed date
  2025-02-01, and the expansion of the stored transaction over the window yields 2025-02-02,
  2025-02-16 and 2025-03-02, all of them Sundays; the expansion of a transaction dated
  2025-02-03 yields the same three dates.
\<close>

theorem biweekly_scenario_shifts_in_tokyo:
  "adjustedDate tokyo ''2025-02-01''
     \<lparr>interval = 2, unit = Week, dayOfWeek = Some ''monday'', dayOfMonth = None\<rparr>
     = Some ''2025-02-02'' \<and>
   map_option (map_sum id (map (\<lambda>x. (tid x, date x))))
     (generateRecurringInstances tokyo
        (with_type ty \<lparr>tid = ''p'', amount = a, description = d, date = ''2025-02-02'',
           category = c,
           recurring = Some \<lparr>pattern = ''every 2 week on monday'', until = None\<rparr>\<rparr>)
        ''2025-02-01'' ''2025-03-10'') =
   Some (Inr [(''p-2025-02-02'', ''2025-02-02''), (''p-2025-02-16'', ''2025-02-16''),
              (''p-2025-03-02'', ''2025-03-02'')]) \<and>
   map_option (map_sum id (map (\<lambda>x. (tid x, date x))))
     (generateRecurringInstances tokyo
        (with_type ty \<lparr>tid = ''p'', amount = a, description = d, date = ''2025-02-03'',
           category = c,
           recurring = Some \<lparr>pattern = ''every 2 week on monday'', until = None\<rparr>\<rparr>)
        ''2025-02-01'' ''2025-03-10'') =
   Some (Inr [(''p-2025-02-02'', ''2025-02-02''), (''p-2025-02-16'', ''2025-02-16''),
              (''p-2025-03-02'', ''2025-03-02'')]) \<and>
   getDay utc (parseDate ''2025-02-02'') = Some 0 \<and>
   getDay utc (parseDate ''2025-02-16'') = Some 0 \<and>
   getDay utc (parseDate ''2025-03-02'') = Some 0 \<and>
   adjustedDate utc ''2025-02-01''
     \<lparr>interval = 2, unit = Week, dayOfWeek = Some ''monday'', dayOfMonth = None\<rparr>
     = Some ''2025-02-03'' \<and>
   map_option (map_sum id (map (\<lambda>x. (tid x, date x))))
     (generateRecurringInstances utc
        (with_type ty \<lparr>tid = ''p'', amount = a, description = d, date = ''2025-02-03'',
           category = c,
           recurring = Some \<lparr>pattern = ''every 2 week on monday'', until = None\<rparr>\<rparr>)
        ''2025-02-01'' ''2025-03-10'') =
   Some (Inr [(''p-2025-02-03'', ''2025-02-03''), (''p-2025-02-17'', ''2025-02-17''),
              (''p-2025-03-03'', ''2025-03-03'')])"
proof -
  have s: "getDay utc (parseDate ''2025-02-02'') = Some 0"
    "getDay utc (parseDate ''2025-02-16'') = Some 0"
    "getDay utc (parseDate ''2025-03-02'') = Some 0" by code_simp+
  show ?thesis
    by (simp add: adjusted_dates_utc adjusted_dates_tokyo biweekly_expansion_utc
        biweekly_expansion_tokyo with_type_def tx.defs make_instance_def s)
qed

text \<open>
  Claim C7 (window containment): every instance that an expansion returns has a date
  between the start and the end of the window, both inclusive, and not after the end bound
  \<open>until\<close> when the transaction has one.

  The loop compares the \<^verbatim>\<open>Date\<close> values, which are local midnights, but the date of an
  instance is the date of that instant in UTC. With the server in Asia/Tokyo a transaction
  dated 2025-01-01 with the pattern \<^verbatim>\<open>every 1 day\<close>, expanded over the window from 2025-01-01
  to 2025-01-03, yields the instances 2024-12-31, 2025-01-01 and 2025-01-02: the first lies
  before the start of the window, as a string and as a date.
\<close>

theorem instance_before_window_in_tokyo:
  "map_option (map_sum id (map date))
     (generateRecurringInstances tokyo
        (with_type ty \<lparr>tid = i, amount = a, description = d, date = ''2025-01-01'',
           category = c, recurring = Some \<lparr>pattern = ''every 1 day'', until = None\<rparr>\<rparr>)
        ''2025-01-01'' ''2025-01-03'') =
   Some (Inr [''2024-12-31'', ''2025-01-01'', ''2025-01-02'']) \<and>
   \<not> str_le ''2025-01-01'' ''2024-12-31'' \<and>
   num_lt (parseDate ''2024-12-31'') (parseDate ''2025-01-01'')"
proof -
  have s: "\<not> str_le ''2025-01-01'' ''2024-12-31''"
    "num_lt (parseDate ''2024-12-31'') (parseDate ''2025-01-01'')" by code_simp+
  show ?thesis
    by (simp add: daily_expansion_tokyo with_type_def tx.defs date_make_instance s)
qed

section \<open>The range query\<close>





























section \<open>The delete handler\<close>

lemma findIndex_None: "findIndex P xs = None \<longleftrightarrow> (\<forall>x \<in> set xs. \<not> P x)"
  by (induction xs) (auto split: option.splits)

lemma findIndex_Some:
  "findIndex P xs = Some i \<Longrightarrow> i < length xs \<and> P (xs ! i) \<and> (\<forall>j < i. \<not> P (xs ! j))"
proof (induction xs arbitrary: i)
  case Nil
  thus ?case by simp
next
  case (Cons x xs)
  show ?case
  proof (cases "P x")
    case True
    with Cons.prems show ?thesis by simp
  next
    case False
    with Cons.prems obtain i' where i: "findIndex P xs = Some i'" "i = Suc i'"
      by (auto split: option.splits)
    from Cons.IH[OF i(1)] False show ?thesis
      by (auto simp: i(2) nth_Cons split: nat.splits)
  qed
qed

lemma findIndex_append:
  "findIndex P (xs @ ys) =
     (case findIndex P xs of Some i \<Rightarrow> Some i
      | None \<Rightarrow> map_option (\<lambda>j. length xs + j) (findIndex P ys))"
proof (induction xs)
  case Nil
  show ?case by (cases "findIndex P ys") simp_all
next
  case (Cons x xs)
  thus ?case by (auto split: option.splits)
qed

lemma splice1_append_left: "i < length xs \<Longrightarrow> splice1 i (xs @ ys) = splice1 i xs @ ys"
  by (simp add: splice1_def)

lemma splice1_append_right: "splice1 (length xs + j) (xs @ ys) = xs @ splice1 j ys"
  by (simp add: splice1_def)

lemma stored_Cons: "stored ((k, month) # rest) = income month @ expenses month @ stored rest"
  by (simp add: stored_def)

lemma delete_months_None:
  "delete_months p i ts = None \<longleftrightarrow>
   findIndex (\<lambda>t. tid t = p \<or> tid t = i) (stored ts) = None"
proof (induction ts)
  case Nil
  show ?case by (simp add: stored_def)
next
  case (Cons km ts)
  obtain k month where km: "km = (k, month)" by (cases km)
  show ?case using Cons
    by (auto simp: km stored_Cons findIndex_append split: option.splits)
qed

lemma delete_months_Some:
  "delete_months p i transactions = Some transactions' \<Longrightarrow>
     \<exists>j. findIndex (\<lambda>t. tid t = p \<or> tid t = i) (stored transactions) = Some j \<and>
         stored transactions' = splice1 j (stored transactions) \<and>
         map fst transactions' = map fst transactions"
proof -
  let ?P = "\<lambda>t. tid t = p \<or> tid t = i"
  show "delete_months p i transactions = Some transactions' \<Longrightarrow>
     \<exists>j. findIndex ?P (stored transactions) = Some j \<and>
         stored transactions' = splice1 j (stored transactions) \<and>
         map fst transactions' = map fst transactions"
  proof (induction transactions arbitrary: transactions')
    case Nil
    thus ?case by simp
  next
    case (Cons km ts)
    obtain k month where km: "km = (k, month)" by (cases km)
    show ?case
    proof (cases "findIndex ?P (income month)")
      case (Some a)
      hence "a < length (income month)" using findIndex_Some by blast
      with Some Cons.prems show ?thesis
        by (auto simp: km stored_Cons findIndex_append splice1_append_left)
    next
      case None
      note ni = this
      show ?thesis
      proof (cases "findIndex ?P (expenses month)")
        case (Some b)
        hence "b < length (expenses month)" using findIndex_Some by blast
        with Some ni Cons.prems show ?thesis
          by (auto simp: km stored_Cons findIndex_append splice1_append_left
              splice1_append_right)
      next
        case None
        with ni Cons.prems obtain r where r: "delete_months p i ts = Some r"
          "transactions' = (k, month) # r" by (auto simp: km)
        from Cons.IH[OF r(1)] obtain j where j: "findIndex ?P (stored ts) = Some j"
          "stored r = splice1 j (stored ts)" "map fst r = map fst ts" by blast
        have "splice1 (length (income month) + (length (expenses month) + j))
                (income month @ expenses month @ stored ts) =
              income month @ expenses month @ splice1 j (stored ts)"
          using splice1_append_right[of "income month @ expenses month" j "stored ts"]
          by (simp add: add.assoc)
        thus ?thesis using ni None j r(2)
          by (simp add: km stored_Cons findIndex_append)
      qed
    qed
  qed
qed

lemma parentId_of_takeWhile: "parentId_of i = takeWhile (\<lambda>c. c \<noteq> CHR ''-'') i"
proof (cases "CHR ''-'' \<in> set i")
  case False
  hence e: "takeWhile (\<lambda>c. c \<noteq> CHR ''-'') i = i"
    by (intro takeWhile_eq_all_conv[THEN iffD2]) auto
  show ?thesis unfolding parentId_of_def e by simp
qed (simp add: parentId_of_def)

lemma length_takeWhile_le:
  assumes "n < length xs" "\<not> P (xs ! n)"
  shows "length (takeWhile P xs) \<le> n"
proof (rule ccontr)
  assume "\<not> length (takeWhile P xs) \<le> n"
  hence l: "n < length (takeWhile P xs)" by simp
  hence "takeWhile P xs ! n \<in> set (takeWhile P xs)" by simp
  hence "P (takeWhile P xs ! n)" by (meson set_takeWhileD)
  thus False using assms(2) takeWhile_nth[OF l] by simp
qed

lemma is_uuid_hyphen: "is_uuid s \<Longrightarrow> length s = 36 \<and> s ! 8 = CHR ''-''"
  by (simp add: is_uuid_def list_all_iff)

lemma instance_id_matches_no_uuid:
  assumes "is_uuid p" "is_uuid x"
  shows "x \<noteq> parentId_of (p @ ''-'' @ dateStr)" "x \<noteq> p @ ''-'' @ dateStr"
proof -
  from is_uuid_hyphen[OF assms(1)] have p: "length p = 36" "p ! 8 = CHR ''-''" by simp_all
  from is_uuid_hyphen[OF assms(2)] have x: "length x = 36" by simp
  have "(p @ ''-'' @ dateStr) ! 8 = CHR ''-''" using p by (simp add: nth_append)
  hence "length (takeWhile (\<lambda>c. c \<noteq> CHR ''-'') (p @ ''-'' @ dateStr)) \<le> 8"
    using length_takeWhile_le[of 8 "p @ ''-'' @ dateStr" "\<lambda>c. c \<noteq> CHR ''-''"] p by simp
  thus "x \<noteq> parentId_of (p @ ''-'' @ dateStr)" using x by (auto simp: parentId_of_takeWhile)
  show "x \<noteq> p @ ''-'' @ dateStr" using x p by auto
qed

text \<open>Every id in the store is one that the server generated: the create handler adds a
  transaction under the fresh id, the update and the delete handler add none.\<close>

lemma set_splice1_subset: "set (splice1 i xs) \<subseteq> set xs"
  unfolding splice1_def using set_take_subset[of i xs] set_drop_subset[of "Suc i" xs] by auto

lemma stored_push_tx: "set (stored (push_tx key ty t s)) = insert t (set (stored s))"
proof (induction s)
  case Nil
  show ?case by (cases ty) (simp_all add: stored_def)
next
  case (Cons km s)
  obtain k month where km: "km = (k, month)" by (cases km)
  show ?case using Cons by (cases ty) (auto simp: km stored_Cons)
qed

lemma tid_updated: "tid (updated req t) = tid t"
  by (simp add: updated_def)

lemma put_months_ids:
  "put_months i req s = Some s' \<Longrightarrow> tid ` set (stored s') \<subseteq> tid ` set (stored s)"
proof (induction s arbitrary: s')
  case Nil
  thus ?case by simp
next
  case (Cons km s)
  obtain k month where km: "km = (k, month)" by (cases km)
  show ?case
  proof (cases "findIndex (\<lambda>t. tid t = i) (income month)")
    case (Some a)
    hence a: "a < length (income month)" using findIndex_Some by blast
    hence m: "income month ! a \<in> set (income month)" by simp
    have u: "set ((income month)[a := y]) \<subseteq> insert y (set (income month))" for y
      by (rule set_update_subset_insert)
    from Some Cons.prems show ?thesis
      using set_splice1_subset[of a "income month"] m u
      by (auto simp: km stored_Cons tid_updated split: if_splits)
        (force simp: tid_updated)+
  next
    case None
    note ni = this
    show ?thesis
    proof (cases "findIndex (\<lambda>t. tid t = i) (expenses month)")
      case (Some b)
      hence b: "b < length (expenses month)" using findIndex_Some by blast
      hence m: "expenses month ! b \<in> set (expenses month)" by simp
      have u: "set ((expenses month)[b := y]) \<subseteq> insert y (set (expenses month))" for y
        by (rule set_update_subset_insert)
      from Some ni Cons.prems show ?thesis
        using set_splice1_subset[of b "expenses month"] m u
        by (auto simp: km stored_Cons tid_updated split: if_splits)
          (force simp: tid_updated)+
    next
      case None
      with ni Cons.prems obtain r where r: "put_months i req s = Some r" "s' = (k, month) # r"
        by (auto simp: km)
      from Cons.IH[OF r(1)] show ?thesis by (auto simp: r(2) km stored_Cons)
    qed
  qed
qed

lemma server_ids_post:
  "server_ids s \<Longrightarrow> is_uuid newId \<Longrightarrow> server_ids (snd (post_transaction tz newId req s))"
  by (auto simp: post_transaction_def server_ids_def stored_push_tx newTransaction_def
      split: option.splits sum.splits)

lemma server_ids_put: "server_ids s \<Longrightarrow> server_ids (snd (put_transaction i req s))"
proof -
  assume s: "server_ids s"
  show ?thesis
  proof (cases "put_months i req s")
    case None
    thus ?thesis using s by (simp add: put_transaction_def split: option.splits)
  next
    case (Some s')
    from put_months_ids[OF this] s have "server_ids s'" by (auto simp: server_ids_def)
    thus ?thesis using Some s by (simp add: put_transaction_def split: option.splits)
  qed
qed

lemma server_ids_delete: "server_ids s \<Longrightarrow> server_ids (snd (delete_transaction i s))"
proof -
  assume s: "server_ids s"
  show ?thesis
  proof (cases "delete_months (parentId_of i) i s")
    case None
    thus ?thesis using s by (simp add: delete_transaction_def)
  next
    case (Some s')
    from delete_months_Some[OF this] obtain j where "stored s' = splice1 j (stored s)" by blast
    hence "set (stored s') \<subseteq> set (stored s)" by (simp add: set_splice1_subset)
    hence "server_ids s'" using s by (auto simp: server_ids_def)
    thus ?thesis using Some by (simp add: delete_transaction_def)
  qed
qed

text \<open>
  Claim C9: the delete handler removes a stored transaction if and only if some stored
  transaction has the requested id or the text of the requested id before its first hyphen
  as its id. It then answers 200, and the store afterwards holds the transactions of before
  in their order without the first such transaction (in the order of the months, income
  before expenses): one transaction fewer, under the same month keys. Otherwise it answers
  404 and leaves the store as it is. So in a store of server-generated ids (UUIDs, which
  \<open>server_ids_post\<close>, \<open>server_ids_put\<close> and \<open>server_ids_delete\<close> show to be all the ids there
  are), a request with the id of a generated instance (parent id, hyphen, date) of a UUID
  parent matches nothing: 404, store unchanged.
\<close>

theorem delete_by_id_or_prefix:
  "((\<exists>t \<in> set (stored transactions).
        tid t = i \<or> tid t = takeWhile (\<lambda>c. c \<noteq> CHR ''-'') i) \<longrightarrow>
      fst (delete_transaction i transactions) = 200 \<and>
      (\<exists>j < length (stored transactions).
         (tid (stored transactions ! j) = i \<or>
          tid (stored transactions ! j) = takeWhile (\<lambda>c. c \<noteq> CHR ''-'') i) \<and>
         (\<forall>l < j. tid (stored transactions ! l) \<noteq> i \<and>
                  tid (stored transactions ! l) \<noteq> takeWhile (\<lambda>c. c \<noteq> CHR ''-'') i) \<and>
         stored (snd (delete_transaction i transactions)) =
           take j (stored transactions) @ drop (Suc j) (stored transactions)) \<and>
      length (stored (snd (delete_transaction i transactions))) + 1 =
        length (stored transactions) \<and>
      map fst (snd (delete_transaction i transactions)) = map fst transactions) \<and>
   (\<not> (\<exists>t \<in> set (stored transactions).
        tid t = i \<or> tid t = takeWhile (\<lambda>c. c \<noteq> CHR ''-'') i) \<longrightarrow>
      delete_transaction i transactions = (404, transactions)) \<and>
   (server_ids transactions \<and> is_uuid p \<longrightarrow>
      delete_transaction (p @ ''-'' @ dateStr) transactions = (404, transactions))"
proof (intro conjI impI)
  let ?P = "\<lambda>i t. tid t = parentId_of i \<or> tid t = i"
  have none: "delete_transaction i transactions = (404, transactions)"
    if "\<forall>t \<in> set (stored transactions). \<not> ?P i t" for i
  proof -
    from that have "findIndex (?P i) (stored transactions) = None" by (simp add: findIndex_None)
    hence "delete_months (parentId_of i) i transactions = None" by (simp add: delete_months_None)
    thus ?thesis by (simp add: delete_transaction_def)
  qed
  {
    assume "\<not> (\<exists>t \<in> set (stored transactions).
        tid t = i \<or> tid t = takeWhile (\<lambda>c. c \<noteq> CHR ''-'') i)"
    thus "delete_transaction i transactions = (404, transactions)"
      by (intro none) (auto simp: parentId_of_takeWhile)
  }
  {
    assume "server_ids transactions \<and> is_uuid p"
    hence "\<forall>t \<in> set (stored transactions). \<not> ?P (p @ ''-'' @ dateStr) t"
      using instance_id_matches_no_uuid[of p _ dateStr] by (auto simp: server_ids_def)
    thus "delete_transaction (p @ ''-'' @ dateStr) transactions = (404, transactions)"
      by (rule none)
  }
  assume m: "\<exists>t \<in> set (stored transactions).
        tid t = i \<or> tid t = takeWhile (\<lambda>c. c \<noteq> CHR ''-'') i"
  hence "findIndex (?P i) (stored transactions) \<noteq> None"
    by (auto simp: findIndex_None parentId_of_takeWhile)
  hence "delete_months (parentId_of i) i transactions \<noteq> None" by (simp add: delete_months_None)
  then obtain ts' where d: "delete_months (parentId_of i) i transactions = Some ts'" by auto
  from delete_months_Some[OF d] obtain j where
    j: "findIndex (?P i) (stored transactions) = Some j"
       "stored ts' = splice1 j (stored transactions)"
       "map fst ts' = map fst transactions" by blast
  from findIndex_Some[OF j(1)] have f: "j < length (stored transactions)"
    "?P i (stored transactions ! j)" "\<forall>l < j. \<not> ?P i (stored transactions ! l)" by simp_all
  have s: "snd (delete_transaction i transactions) = ts'" using d
    by (simp add: delete_transaction_def)
  show "fst (delete_transaction i transactions) = 200" using d
    by (simp add: delete_transaction_def)
  show "\<exists>j < length (stored transactions).
         (tid (stored transactions ! j) = i \<or>
          tid (stored transactions ! j) = takeWhile (\<lambda>c. c \<noteq> CHR ''-'') i) \<and>
         (\<forall>l < j. tid (stored transactions ! l) \<noteq> i \<and>
                  tid (stored transactions ! l) \<noteq> takeWhile (\<lambda>c. c \<noteq> CHR ''-'') i) \<and>
         stored (snd (delete_transaction i transactions)) =
           take j (stored transactions) @ drop (Suc j) (stored transactions)"
    using f j(2) unfolding s by (intro exI[of _ j]) (auto simp: parentId_of_takeWhile splice1_def)
  show "length (stored (snd (delete_transaction i transactions))) + 1 =
        length (stored transactions)"
    using f(1) unfolding s j(2) by (simp add: splice1_def)
  show "map fst (snd (delete_transaction i transactions)) = map fst transactions"
    unfolding s by (rule j(3))
qed

theorem delete_by_id_or_prefix_witness:
  "server_ids
     [(''2025-02'', \<lparr>income = [\<lparr>tid = ''123e4567-e89b-42d3-a456-426614174000'', amount = 5,
          description = ''rent'', date = ''2025-02-03'', category = None,
          recurring = Some \<lparr>pattern = ''every 2 week on monday'', until = None\<rparr>\<rparr>],
        expenses = [\<lparr>tid = ''9b2f0c1e-7a4d-4e8b-b3c6-5d1f2a3b4c5d'', amount = 3,
          description = ''tea'', date = ''2025-02-10'', category = Some ''food'',
          recurring = None\<rparr>]\<rparr>)] \<and>
   is_uuid ''123e4567-e89b-42d3-a456-426614174000'' \<and>
   delete_transaction (''123e4567-e89b-42d3-a456-426614174000'' @ ''-'' @ ''2025-02-03'')
     [(''2025-02'', \<lparr>income = [\<lparr>tid = ''123e4567-e89b-42d3-a456-426614174000'', amount = 5,
          description = ''rent'', date = ''2025-02-03'', category = None,
          recurring = Some \<lparr>pattern = ''every 2 week on monday'', until = None\<rparr>\<rparr>],
        expenses = [\<lparr>tid = ''9b2f0c1e-7a4d-4e8b-b3c6-5d1f2a3b4c5d'', amount = 3,
          description = ''tea'', date = ''2025-02-10'', category = Some ''food'',
          recurring = None\<rparr>]\<rparr>)] =
   (404,
     [(''2025-02'', \<lparr>income = [\<lparr>tid = ''123e4567-e89b-42d3-a456-426614174000'', amount = 5,
          description = ''rent'', date = ''2025-02-03'', category = None,
          recurring = Some \<lparr>pattern = ''every 2 week on monday'', until = None\<rparr>\<rparr>],
        expenses = [\<lparr>tid = ''9b2f0c1e-7a4d-4e8b-b3c6-5d1f2a3b4c5d'', amount = 3,
          description = ''tea'', date = ''2025-02-10'', category = Some ''food'',
          recurring = None\<rparr>]\<rparr>)]) \<and>
   delete_transaction ''123e4567-e89b-42d3-a456-426614174000''
     [(''2025-02'', \<lparr>income = [\<lparr>tid = ''123e4567-e89b-42d3-a456-426614174000'', amount = 5,
          description = ''rent'', date = ''2025-02-03'', category = None,
          recurring = Some \<lparr>pattern = ''every 2 week on monday'', until = None\<rparr>\<rparr>],
        expenses = [\<lparr>tid = ''9b2f0c1e-7a4d-4e8b-b3c6-5d1f2a3b4c5d'', amount = 3,
          description = ''tea'', date = ''2025-02-10'', category = Some ''food'',
          recurring = None\<rparr>]\<rparr>)] =
   (200,
     [(''2025-02'', \<lparr>income = [],
        expenses = [\<lparr>tid = ''9b2f0c1e-7a4d-4e8b-b3c6-5d1f2a3b4c5d'', amount = 3,
          description = ''tea'', date = ''2025-02-10'', category = Some ''food'',
          recurring = None\<rparr>]\<rparr>)]) \<and>
   stored (snd (delete_transaction ''9b2f0c1e''
     [(''2025-02'', \<lparr>income = [\<lparr>tid = ''9b2f0c1e'', amount = 5,
          description = ''rent'', date = ''2025-02-03'', category = None, recurring = None\<rparr>,
          \<lparr>tid = ''9b2f0c1e'', amount = 7,
          description = ''more'', date = ''2025-02-04'', category = None, recurring = None\<rparr>],
        expenses = []\<rparr>)])) =
     [\<lparr>tid = ''9b2f0c1e'', amount = 7,
          description = ''more'', date = ''2025-02-04'', category = None, recurring = None\<rparr>]"
proof -
  let ?u = "''123e4567-e89b-42d3-a456-426614174000''"
  let ?v = "''9b2f0c1e-7a4d-4e8b-b3c6-5d1f2a3b4c5d''"
  let ?t = "\<lparr>tid = ?u, amount = 5, description = ''rent'', date = ''2025-02-03'', category = None,
          recurring = Some \<lparr>pattern = ''every 2 week on monday'', until = None\<rparr>\<rparr>"
  let ?o = "\<lparr>tid = ?v, amount = 3, description = ''tea'', date = ''2025-02-10'',
          category = Some ''food'', recurring = None\<rparr>"
  let ?s = "[(''2025-02'', \<lparr>income = [?t], expenses = [?o]\<rparr>)]"
  let ?x = "\<lparr>tid = ''9b2f0c1e'', amount = 5,
          description = ''rent'', date = ''2025-02-03'', category = None, recurring = None\<rparr>"
  let ?y = "\<lparr>tid = ''9b2f0c1e'', amount = 7,
          description = ''more'', date = ''2025-02-04'', category = None, recurring = None\<rparr>"
  let ?d = "[(''2025-02'', \<lparr>income = [?x, ?y], expenses = []\<rparr>)]"
  have u: "is_uuid ?u" "is_uuid ?v" by code_simp+
  have st: "stored ?s = [?t, ?o]" by (simp add: stored_def)
  have s: "server_ids ?s" unfolding server_ids_def st using u by simp
  from delete_by_id_or_prefix[of ?s "?u @ ''-'' @ ''2025-02-03''" ?u "''2025-02-03''"] s u
  have a: "delete_transaction (?u @ ''-'' @ ''2025-02-03'') ?s = (404, ?s)" by blast
  have b: "delete_transaction ?u ?s = (200, [(''2025-02'', \<lparr>income = [], expenses = [?o]\<rparr>)])"
    by (simp add: delete_transaction_def parentId_of_def splice1_def)
  have sd: "stored ?d = [?x, ?y]" by (simp add: stored_def)
  have m: "\<exists>t \<in> set (stored ?d). tid t = ''9b2f0c1e'' \<or>
      tid t = takeWhile (\<lambda>c. c \<noteq> CHR ''-'') ''9b2f0c1e''"
    unfolding sd by simp
  from delete_by_id_or_prefix[of ?d "''9b2f0c1e''" ?u "''2025-02-03''"] m
  obtain j where j: "j < length (stored ?d)"
      "\<forall>l < j. tid (stored ?d ! l) \<noteq> ''9b2f0c1e'' \<and>
                  tid (stored ?d ! l) \<noteq> takeWhile (\<lambda>c. c \<noteq> CHR ''-'') ''9b2f0c1e''"
      "stored (snd (delete_transaction ''9b2f0c1e'' ?d)) =
           take j (stored ?d) @ drop (Suc j) (stored ?d)" by blast
  have "j = 0"
  proof (rule ccontr)
    assume "j \<noteq> 0"
    hence "0 < j" by simp
    with j(2) have "tid (stored ?d ! 0) \<noteq> ''9b2f0c1e''" by blast
    thus False by (simp add: sd)
  qed
  with j(3) have c: "stored (snd (delete_transaction ''9b2f0c1e'' ?d)) = [?y]"
    by (simp add: sd)
  show ?thesis using s u(1) a b c by (intro conjI)
qed

section \<open>The write handlers and invalid patterns\<close>

lemma post_rejects_no_occurrence:
  assumes "basic_validation req = None" "r_recurring req = Some rc" "pattern rc \<noteq> []"
    and "no_occurrence (pattern rc)"
  shows "post_transaction tz newId req transactions = (400, transactions)"
proof -
  have "\<not> isValidRegular (pattern rc)" "\<not> isValidMonthDay (pattern rc)"
    using assms(4) by (simp_all add: isValidRegular_iff isValidMonthDay_iff no_occurrence_def)
  thus ?thesis using assms(1,2,3) by (simp add: post_transaction_def req_pattern_def)
qed

text \<open>
  Claim C3: on create and on update, a recurring pattern that matches neither grammar makes
  the handler reject the write with an error and leave the stored transactions unchanged.

  The create handler does so for every pattern in which neither regular expression finds a
  match (\<open>post_rejects_no_occurrence\<close>); the update handler never looks at the pattern. For
  the pattern \<^verbatim>\<open>sometimes\<close> the create request is answered with 400 and the same body sent
  as an update of the transaction \<^verbatim>\<open>a\<close> is answered with 200 and stored.
\<close>

theorem update_stores_invalid_pattern:
  "no_occurrence ''sometimes'' \<and> \<not> spec_grammar ''sometimes'' \<and>
   post_transaction tz newId
     \<lparr>r_type = ''income'', r_amount = 5, r_description = ''pay'', r_category = [],
        r_date = ''2025-01-01'',
        r_recurring = Some \<lparr>pattern = ''sometimes'', until = None\<rparr>\<rparr>
     [(''2025-01'', \<lparr>income = [\<lparr>tid = ''a'', amount = 1, description = ''old'',
          date = ''2025-01-01'', category = None, recurring = None\<rparr>], expenses = []\<rparr>)] =
   (400,
     [(''2025-01'', \<lparr>income = [\<lparr>tid = ''a'', amount = 1, description = ''old'',
          date = ''2025-01-01'', category = None, recurring = None\<rparr>], expenses = []\<rparr>)]) \<and>
   put_transaction ''a''
     \<lparr>r_type = ''income'', r_amount = 5, r_description = ''pay'', r_category = [],
        r_date = ''2025-01-01'',
        r_recurring = Some \<lparr>pattern = ''sometimes'', until = None\<rparr>\<rparr>
     [(''2025-01'', \<lparr>income = [\<lparr>tid = ''a'', amount = 1, description = ''old'',
          date = ''2025-01-01'', category = None, recurring = None\<rparr>], expenses = []\<rparr>)] =
   (200,
     [(''2025-01'', \<lparr>income = [\<lparr>tid = ''a'', amount = 5, description = ''pay'',
          date = ''2025-01-01'', category = None,
          recurring = Some \<lparr>pattern = ''sometimes'', until = None\<rparr>\<rparr>], expenses = []\<rparr>)])"
proof -
  let ?req = "\<lparr>r_type = ''income'', r_amount = 5, r_description = ''pay'', r_category = [],
        r_date = ''2025-01-01'',
        r_recurring = Some \<lparr>pattern = ''sometimes'', until = None\<rparr>\<rparr>"
  have n: "no_occurrence ''sometimes''" by (rule no_occurrence_without_v) simp
  have g: "\<not> spec_grammar ''sometimes''" by code_simp
  have b: "basic_validation ?req = None" by (simp add: basic_validation_def)
  have p: "post_transaction tz newId ?req ts = (400, ts)" for ts
    by (rule post_rejects_no_occurrence[OF b, where rc = "\<lparr>pattern = ''sometimes'', until = None\<rparr>"])
       (simp_all add: n)
  show ?thesis using n g p
    by (simp add: put_transaction_def b updated_def)
qed




section \<open>The anchor of a weekly rule\<close>

lemma parse_every_1_week_on_monday:
  "parseRecurringPattern ''every 1 week on monday'' =
     Inr \<lparr>interval = 1, unit = Week, dayOfWeek = Some ''monday'', dayOfMonth = None\<rparr>"
  "isValidRegular ''every 1 week on monday''"
  by code_simp+

text \<open>
  Claim C5: for a proposed date and a weekly rule with a weekday, the date that the create
  handler stores is the first calendar date on or after the proposed date that falls on
  that weekday: the proposed date itself exactly when it already falls on the weekday, and
  otherwise 1 to 6 days later, never earlier.

  The handler finds that date as a local midnight and stores
  \<^verbatim>\<open>selectedDate.toISOString().split('T')[0]\<close>, the date of that instant in UTC: east of
  Greenwich that is the day before. With the server in Asia/Tokyo and the rule
  \<^verbatim>\<open>every 1 week on monday\<close>, the proposed date 2025-02-01 (a Saturday) is stored as
  2025-02-02, a Sunday, and the proposed date 2025-02-03, which is a Monday, is stored as
  2025-02-02 as well: a day earlier, and not a Monday. (In UTC the first is stored as
  2025-02-03 and the second as it is.)
\<close>

theorem weekly_anchor_a_day_early_in_tokyo:
  "getDay utc (parseDate ''2025-02-01'') = Some 6 \<and>
   getDay utc (parseDate ''2025-02-02'') = Some 0 \<and>
   getDay utc (parseDate ''2025-02-03'') = Some 1 \<and>
   weekdays ! 1 = ''monday'' \<and>
   adjustedDate tokyo ''2025-02-01''
     \<lparr>interval = 1, unit = Week, dayOfWeek = Some ''monday'', dayOfMonth = None\<rparr>
     = Some ''2025-02-02'' \<and>
   adjustedDate tokyo ''2025-02-03''
     \<lparr>interval = 1, unit = Week, dayOfWeek = Some ''monday'', dayOfMonth = None\<rparr>
     = Some ''2025-02-02'' \<and>
   \<not> str_le ''2025-02-03'' ''2025-02-02'' \<and>
   post_transaction tokyo newId
     \<lparr>r_type = ''income'', r_amount = 5, r_description = ''rent'', r_category = [],
        r_date = ''2025-02-03'',
        r_recurring = Some \<lparr>pattern = ''every 1 week on monday'', until = None\<rparr>\<rparr> [] =
   (201,
     [(''2025-02'', \<lparr>income = [\<lparr>tid = newId, amount = 5, description = ''rent'',
          date = ''2025-02-02'', category = None,
          recurring = Some \<lparr>pattern = ''every 1 week on monday'', until = None\<rparr>\<rparr>],
        expenses = []\<rparr>)]) \<and>
   adjustedDate utc ''2025-02-01''
     \<lparr>interval = 1, unit = Week, dayOfWeek = Some ''monday'', dayOfMonth = None\<rparr>
     = Some ''2025-02-03'' \<and>
   adjustedDate utc ''2025-02-03''
     \<lparr>interval = 1, unit = Week, dayOfWeek = Some ''monday'', dayOfMonth = None\<rparr>
     = Some ''2025-02-03''"
proof -
  have d: "getDay utc (parseDate ''2025-02-01'') = Some 6"
    "getDay utc (parseDate ''2025-02-02'') = Some 0"
    "getDay utc (parseDate ''2025-02-03'') = Some 1"
    "\<not> str_le ''2025-02-03'' ''2025-02-02''"
    "month_key_of ''2025-02-02'' = ''2025-02''" by code_simp+
  have u: "adjustedDate utc ''2025-02-01''
     \<lparr>interval = 1, unit = Week, dayOfWeek = Some ''monday'', dayOfMonth = None\<rparr>
     = Some ''2025-02-03''"
    "adjustedDate utc ''2025-02-03''
     \<lparr>interval = 1, unit = Week, dayOfWeek = Some ''monday'', dayOfMonth = None\<rparr>
     = Some ''2025-02-03''" by code_simp+
  have p: "post_transaction tokyo newId
     \<lparr>r_type = ''income'', r_amount = 5, r_description = ''rent'', r_category = [],
        r_date = ''2025-02-03'',
        r_recurring = Some \<lparr>pattern = ''every 1 week on monday'', until = None\<rparr>\<rparr> [] =
   (201,
     [(''2025-02'', \<lparr>income = [\<lparr>tid = newId, amount = 5, description = ''rent'',
          date = ''2025-02-02'', category = None,
          recurring = Some \<lparr>pattern = ''every 1 week on monday'', until = None\<rparr>\<rparr>],
        expenses = []\<rparr>)])"
    by (simp add: post_transaction_def basic_validation_def req_pattern_def
        parse_every_1_week_on_monday invalid_until_def until_or_null_def adjusted_dates_tokyo d
        newTransaction_def)
  show ?thesis using d(1-4) adjusted_dates_tokyo(2,3) p u
    by (simp add: weekdays_def)
qed

end
